theory Spec2Isabelle
  imports Main "HOL-Library.Sublist"
begin

section \<open>Preview formatter (utils/preview.js)\<close>

text \<open>
  JavaScript strings that reach the terminal are modelled as lists of Unicode code
  points (\<open>for (const ch of line)\<close> iterates code points); paths, ids and option
  strings are plain \<open>string\<close>s.  \<open>ustr\<close> embeds an ASCII literal.
\<close>

type_synonym ustring = "nat list"

definition ustr :: "string \<Rightarrow> ustring" where
  "ustr s = map of_char s"

text \<open>A record of the parsed session log; an array slot may hold \<open>null\<close> (\<open>None\<close>).
  \<open>timestamp\<close> is \<open>None\<close> when the field is missing or falsy.\<close>

record message =
  role :: string
  msg_text :: ustring
  timestamp :: "string option"

text \<open>What \<open>selectRecentDialogMessages\<close> pushes: role, text, Date (or undefined).\<close>

record item =
  it_role :: string
  it_text :: ustring
  it_timestamp :: "string option"

definition THEME_gray :: string where "THEME_gray = ''#808080''"
definition THEME_green :: string where "THEME_green = ''#5af78e''"
definition THEME_orange :: string where "THEME_orange = ''#ff9500''"

text \<open>\<open>chalk.hex(colour)(text)\<close>; \<open>None\<close> is \<open>chalkLib = null\<close>.\<close>

type_synonym chalk = "string \<Rightarrow> ustring \<Rightarrow> ustring"

definition safeString :: "ustring \<Rightarrow> ustring" where
  "safeString s = s"

text \<open>The loop of \<open>selectRecentDialogMessages\<close>, run over the messages from the last
  to the first; \<open>limit = None\<close> is \<open>Number.POSITIVE_INFINITY\<close>.\<close>

fun selectLoop :: "message option list \<Rightarrow> nat option \<Rightarrow> item list \<Rightarrow> item list" where
  "selectLoop [] limit sub = sub"
| "selectLoop (m # ms) limit sub =
     (if (case limit of None \<Rightarrow> True | Some l \<Rightarrow> length sub < l) then
        (case m of
           None \<Rightarrow> selectLoop ms limit sub
         | Some m' \<Rightarrow>
             if role m' = ''user'' \<or> role m' = ''assistant''
             then selectLoop ms limit
                    (sub @ [\<lparr>it_role = role m', it_text = msg_text m', it_timestamp = timestamp m'\<rparr>])
             else selectLoop ms limit sub)
      else sub)"

definition selectRecentDialogMessages :: "message option list \<Rightarrow> nat option \<Rightarrow> item list" where
  "selectRecentDialogMessages messages limit =
     (if messages = [] then [] else rev (selectLoop (rev messages) limit []))"

text \<open>\<open>wrapPlainLine\<close>: the \<open>for\<close> loop with its three variables, then the final push.
  \<open>sw\<close> is \<open>stringWidth\<close>, the function of the string-width package, which takes a
  string; the loop calls it on the string made of the one code point \<open>ch\<close>.\<close>

fun wrapLoop :: "(ustring \<Rightarrow> nat) \<Rightarrow> int \<Rightarrow> ustring \<Rightarrow> ustring list \<Rightarrow> ustring \<Rightarrow> nat
                   \<Rightarrow> ustring list \<times> ustring" where
  "wrapLoop sw maxWidth [] result cur width = (result, cur)"
| "wrapLoop sw maxWidth (ch # rest) result cur width =
     (let w = sw [ch] in
      if int width + int w > maxWidth \<and> cur \<noteq> []
      then wrapLoop sw maxWidth rest (result @ [cur]) [ch] w
      else wrapLoop sw maxWidth rest result (cur @ [ch]) (width + w))"

definition wrapPlainLine :: "(ustring \<Rightarrow> nat) \<Rightarrow> ustring \<Rightarrow> int \<Rightarrow> ustring list" where
  "wrapPlainLine sw line maxWidth =
     (case wrapLoop sw maxWidth line [] [] 0 of
        (result, cur) \<Rightarrow> if cur \<noteq> [] \<or> line = [] then result @ [cur] else result)"

text \<open>\<open>body.split(/\n/)\<close>: always at least one piece.\<close>

fun splitNL :: "ustring \<Rightarrow> ustring list" where
  "splitNL [] = [[]]"
| "splitNL (c # cs) =
     (if c = 10 then [] # splitNL cs
      else (case splitNL cs of [] \<Rightarrow> [[c]] | l # ls \<Rightarrow> (c # l) # ls))"

text \<open>\<open>out.join('\n')\<close>.\<close>

fun joinLines :: "ustring list \<Rightarrow> ustring" where
  "joinLines [] = []"
| "joinLines [l] = l"
| "joinLines (l # ls) = l @ 10 # joinLines ls"

text \<open>The lines one item pushes to \<open>out\<close>: header, wrapped body lines, the blank line.
  \<open>fmt\<close> is \<open>dayjs(date).format('HH:mm:ss')\<close>; 9475 is the heavy vertical bar, and
  \<open>prefixWidth\<close> is \<open>stringWidth\<close> of the two-character string of bar and blank.\<close>

definition itemLines :: "(ustring \<Rightarrow> nat) \<Rightarrow> (string \<Rightarrow> ustring) \<Rightarrow> chalk option \<Rightarrow> int option
                          \<Rightarrow> item \<Rightarrow> ustring list" where
  "itemLines sw fmt chalkLib wrapWidth it =
     (let ts = (case it_timestamp it of Some d \<Rightarrow> fmt d | None \<Rightarrow> []);
          isUser = (it_role it = ''user'');
          roleLabel = ustr (if isUser then ''User'' else ''AI'');
          colorHex = (if isUser then THEME_orange else THEME_green);
          bar = (case chalkLib of Some c \<Rightarrow> c colorHex [9475] | None \<Rightarrow> [9475]);
          barPrefix = bar @ [32];
          prefixWidth = sw [9475, 32];
          roleStr = (case chalkLib of Some c \<Rightarrow> c colorHex roleLabel | None \<Rightarrow> roleLabel);
          timeStr = (case chalkLib of Some c \<Rightarrow> c THEME_gray ts | None \<Rightarrow> ts);
          header = barPrefix @ roleStr @ [32] @ timeStr;
          rawLines = splitNL (it_text it);
          contentWidth = (case wrapWidth of
                            Some w \<Rightarrow> if w > int prefixWidth + 1 then Some (w - int prefixWidth) else None
                          | None \<Rightarrow> None)
      in header #
         concat (map (\<lambda>raw. case contentWidth of
                               None \<Rightarrow> [barPrefix @ raw]
                             | Some cw \<Rightarrow> map (\<lambda>seg. barPrefix @ seg) (wrapPlainLine sw raw cw))
                     rawLines)
         @ [[]])"

text \<open>The array \<open>out\<close> at the end of \<open>formatPreviewBlocks\<close>, and its join.\<close>

definition previewLines :: "(ustring \<Rightarrow> nat) \<Rightarrow> (string \<Rightarrow> ustring) \<Rightarrow> chalk option \<Rightarrow> int option
                             \<Rightarrow> item list \<Rightarrow> ustring list" where
  "previewLines sw fmt chalkLib wrapWidth items =
     concat (map (itemLines sw fmt chalkLib wrapWidth) items)"

definition formatPreviewBlocks :: "(ustring \<Rightarrow> nat) \<Rightarrow> (string \<Rightarrow> ustring) \<Rightarrow> chalk option \<Rightarrow> int option
                                    \<Rightarrow> item list \<Rightarrow> ustring" where
  "formatPreviewBlocks sw fmt chalkLib wrapWidth items =
     joinLines (previewLines sw fmt chalkLib wrapWidth items)"

text \<open>\<open>buildDialogPreviewBlocks\<close> (tui/splitPicker.js): the items it hands to the
  formatter, the lines, and the string.  Carriage returns (13) are removed.\<close>

definition dialogItems :: "message option list \<Rightarrow> string list \<Rightarrow> item list" where
  "dialogItems messages hide =
     map (\<lambda>it. it\<lparr>it_text := filter (\<lambda>c. c \<noteq> 13) (safeString (it_text it))\<rparr>)
       (filter (\<lambda>it. \<not> (it_role it = ''user'' \<and> ''user'' \<in> set hide)
                    \<and> \<not> (it_role it = ''assistant'' \<and> ''assistant'' \<in> set hide))
          (selectRecentDialogMessages messages None))"


definition buildDialogPreviewBlocks :: "(ustring \<Rightarrow> nat) \<Rightarrow> (string \<Rightarrow> ustring) \<Rightarrow> chalk
     \<Rightarrow> message option list \<Rightarrow> string list \<Rightarrow> int option \<Rightarrow> ustring" where
  "buildDialogPreviewBlocks sw fmt chalkHex messages hide wrapWidth =
     formatPreviewBlocks sw fmt (Some chalkHex) wrapWidth (dialogItems messages hide)"



section \<open>Session picker (tui/splitPicker.js)\<close>

text \<open>
  \<open>pickSessionSplitTUI\<close> keeps its state in closure variables and changes it from
  key handlers and from background workers.  The model passes that state explicitly as
  the record \<open>picker\<close>.  The results of the external calls (quick metadata, full parse,
  unlink) are supplied by \<open>env\<close>.  An \<open>async\<close> function that awaits an external call
  is given twice.  The function named as in the source runs it to its end, each external
  call returning before anything else happens.  The function ending in \<open>Await\<close> runs it
  up to the first \<open>await\<close> of an external call and leaves a \<open>task\<close> in the state; the
  function ending in \<open>Resume\<close> is the code after that \<open>await\<close>, run when the result
  arrives, which may be after other keys.  Where the source waits for the user, an open
  dialog is an \<open>overlay\<close> in the state, and the rest of \<open>deleteSelectedFile\<close> runs when
  the dialog resolves.  Display-only effects (box contents, colours, scrolling, the header and info
  lines, the clipboard) are left out; the text shown in the preview box is kept.  The
  \<open>currentDirOnly\<close> pre-filter, mouse clicks and resizes of the terminal are not
  modelled.
\<close>

record session_file =
  path :: string
  rel :: string
  mtime :: int

text \<open>Quick metadata; an empty string is an absent (falsy) field.\<close>

record meta =
  meta_id :: string
  cwd :: string
  startTime :: string

record summary =
  count :: nat
  lastRole :: string

record parsed =
  parsed_meta :: meta
  messages :: "message option list"

datatype error = TypeError

text \<open>The value the picker's promise resolves to; \<open>null\<close> is \<open>None\<close> at the use site.\<close>

datatype action =
    Resume string string
  | StartNew "string option" string
  | WorkspaceCreate

datatype cacheRead = MetaRead string | SummaryRead string | PreviewRead string

text \<open>Open overlay boxes: the edit-options text box (with its seeded value), the
  delete confirmation (id, the file captured by \<open>deleteSelectedFile\<close>, the selected
  button: 0 is Yes, 1 is No) and the delete-failed notice (its message).\<close>

datatype overlay =
    EditOptions string
  | ConfirmDelete string session_file nat
  | DeleteFailed string

datatype key =
    KeyUp | KeyDown | KeyPageUp | KeyPageDown | KeyHome | KeyEnd
  | KeyLeft | KeyRight | KeyJ | KeyK | KeyF | KeyMinus | KeyC | KeyD | KeyN | KeyS
  | KeyQ | KeyCtrlC | KeyEscape | KeyEnter | KeyY

text \<open>
  An async function stopped at the \<open>await\<close> of an external call whose result has not
  arrived yet, with the variables it captured: \<open>loadMeta(i)\<close> and \<open>loadSummary(i)\<close>
  with the file \<open>f\<close> they read from \<open>pageItems\<close> (\<open>True\<close> when a prefetch worker made
  the call and goes on with its loop afterwards); \<open>updatePreviewForIndex(idx)\<close> with its
  file and width and with what its caller does once it returns (nothing, the six loads of
  the navigation handler for \<open>sel\<close>, or the end of the \<open>d\<close> handler); and the handlers
  of \<open>c\<close>, \<open>n\<close> and \<open>d\<close> at their metadata lookup and \<open>deleteSelectedFile\<close> at
  \<open>fs.unlink\<close>.
\<close>

datatype rest = NoRest | NavRest int | DeleteRest

datatype task =
    MetaLoad int session_file bool
  | SummaryLoad int session_file bool
  | PreviewLoad int session_file int rest
  | CopyLookup session_file
  | NewLookup session_file
  | DeleteLookup session_file
  | Unlinking session_file

text \<open>
  What the handlers call outside the file: \<open>extractSessionMetaQuick\<close> (\<open>None\<close> when it
  throws), \<open>parseSessionFile\<close> (\<open>Inl\<close> the message when it throws), \<open>fs.unlink\<close>
  (\<open>Some\<close> the message when it throws), \<open>stringWidth\<close> of the string-width package, dayjs'
  \<open>format('HH:mm:ss')\<close>, \<open>chalk.hex\<close>, and \<open>Math.floor(totalW * 0.35)\<close>, a floating-point
  product that is taken as given; then the options \<open>hide\<close> and \<open>workspaceMode\<close>.
\<close>

record env =
  quickMeta :: "string \<Rightarrow> meta option"
  parseSessionFile :: "string \<Rightarrow> string + parsed"
  unlink :: "string \<Rightarrow> string option"
  stringWidth :: "ustring \<Rightarrow> nat"
  dayjsFormat :: "string \<Rightarrow> ustring"
  chalkHex :: chalk
  floorScaled :: "int \<Rightarrow> int"
  hide :: "string list"
  workspaceMode :: bool

text \<open>
  The closure variables of \<open>pickSessionSplitTUI\<close>, and with them: \<open>screenDestroyed\<close>
  (\<open>screen.destroy()\<close> was called), \<open>previewContent\<close> (the text last set in the
  preview box), the numbers of live workers, the terminal width \<open>screen.width\<close>, the
  open overlays (the one opened last first), \<open>resolved\<close> (\<open>None\<close> while the returned
  promise is pending, \<open>Some None\<close> once it resolved to \<open>null\<close>), and \<open>cacheReads\<close>,
  the log of every \<open>get\<close> and \<open>has\<close> on one of the three caches, in order.  The
  preview cache is keyed by the string \<open>path::width\<close>, as in the source.  \<open>pending\<close>
  holds the async functions waiting for an external result; a worker that waits is not
  counted in \<open>metaWorkers\<close> or \<open>sumWorkers\<close>.
\<close>

record picker =
  visibleFiles :: "session_file list"
  currentPage :: int
  pageItems :: "session_file list"
  selectedIndex :: int
  fullView :: bool
  modalActive :: bool
  destroyed :: bool
  screenDestroyed :: bool
  editedArgs :: string
  metaCache :: "string \<rightharpoonup> meta"
  msgSummaryCache :: "string \<rightharpoonup> summary"
  previewCache :: "string \<rightharpoonup> ustring"
  previewContent :: ustring
  idxLoad :: int
  idxSum :: int
  metaWorkers :: nat
  sumWorkers :: nat
  screenWidth :: int
  totalW :: int
  leftW :: int
  overlays :: "overlay list"
  resolved :: "action option option"
  cacheReads :: "cacheRead list"
  pending :: "task list"

definition ITEMS_PER_PAGE :: int where "ITEMS_PER_PAGE = 30"
definition gap :: int where "gap = 1"

definition bindE :: "error + 'a \<Rightarrow> ('a \<Rightarrow> error + 'b) \<Rightarrow> error + 'b" where
  "bindE r f = (case r of Inl e \<Rightarrow> Inl e | Inr x \<Rightarrow> f x)"

text \<open>\<open>xs[i]\<close>: \<open>undefined\<close> outside the array.\<close>

definition itemAt :: "'a list \<Rightarrow> int \<Rightarrow> 'a option" where
  "itemAt xs i = (if 0 \<le> i \<and> i < int (length xs) then Some (xs ! nat i) else None)"

text \<open>\<open>xs.slice(start, end)\<close>, negative arguments counting from the end.\<close>

definition jsSlice :: "'a list \<Rightarrow> int \<Rightarrow> int \<Rightarrow> 'a list" where
  "jsSlice xs start end' =
     (let n = int (length xs);
          k = (if start < 0 then max (n + start) 0 else min start n);
          e = (if end' < 0 then max (n + end') 0 else min end' n)
      in take (nat (e - k)) (drop (nat k) xs))"

text \<open>\<open>Math.ceil(n / ITEMS_PER_PAGE)\<close> for a length \<open>n\<close>.\<close>

definition ceilPages :: "nat \<Rightarrow> int" where
  "ceilPages n = (int n + ITEMS_PER_PAGE - 1) div ITEMS_PER_PAGE"

text \<open>Decimal rendering of the width in the template string of the cache key.\<close>

fun showNat :: "nat \<Rightarrow> string" where
  "showNat n = (if n < 10 then [''0123456789'' ! n]
                else showNat (n div 10) @ [''0123456789'' ! (n mod 10)])"

declare showNat.simps [simp del]

definition showInt :: "int \<Rightarrow> string" where
  "showInt i = (if i < 0 then CHR ''-'' # showNat (nat (- i)) else showNat (nat i))"

definition previewKey :: "string \<Rightarrow> int \<Rightarrow> string" where
  "previewKey p w = p @ ''::'' @ showInt w"

definition logRead :: "cacheRead \<Rightarrow> picker \<Rightarrow> picker" where
  "logRead r s = s\<lparr>cacheReads := cacheReads s @ [r]\<rparr>"

definition selectedFile :: "picker \<Rightarrow> session_file option" where
  "selectedFile s = itemAt (pageItems s) (selectedIndex s)"

text \<open>\<open>renderItemContent\<close> reads the summary cache; the box text itself is not kept.\<close>

definition renderItemContent :: "session_file \<Rightarrow> picker \<Rightarrow> picker" where
  "renderItemContent f s = logRead (SummaryRead (path f)) s"

text \<open>There is one item box per page item (\<open>buildItemBoxes\<close> runs whenever
  \<open>pageItems\<close> is assigned), so \<open>itemBoxes[i]\<close> exists exactly when \<open>pageItems[i]\<close> does.\<close>

definition updateItemBox :: "int \<Rightarrow> picker \<Rightarrow> picker" where
  "updateItemBox i s =
     (case itemAt (pageItems s) i of
        None \<Rightarrow> s
      | Some f \<Rightarrow> renderItemContent f (logRead (MetaRead (path f)) s))"

definition buildItemBoxes :: "picker \<Rightarrow> picker" where
  "buildItemBoxes s =
     fold (\<lambda>f t. renderItemContent f (logRead (MetaRead (path f)) t)) (pageItems s) s"

definition setSelectedIndex :: "int \<Rightarrow> picker \<Rightarrow> picker" where
  "setSelectedIndex idx s =
     (if idx < 0 \<or> idx \<ge> int (length (pageItems s)) then s else s\<lparr>selectedIndex := idx\<rparr>)"

definition getPreviewInnerWidth :: "picker \<Rightarrow> int" where
  "getPreviewInnerWidth s =
     (let total = screenWidth s;
          rbWidth = (if fullView s then total else total - (leftW s + gap));
          contentWidth = rbWidth - 2
      in max 10 contentWidth)"

definition applyLayout :: "env \<Rightarrow> picker \<Rightarrow> picker" where
  "applyLayout E s =
     (let s1 = s\<lparr>totalW := (if screenWidth s \<noteq> 0 then screenWidth s else totalW s)\<rparr>;
          s2 = (if \<not> fullView s1 then s1\<lparr>leftW := max 30 (floorScaled E (totalW s1))\<rparr> else s1)
      in fold (\<lambda>i. updateItemBox (int i)) [0..<length (pageItems s2)] s2)"

definition updatePageItems :: "picker \<Rightarrow> picker" where
  "updatePageItems s =
     (let start = currentPage s * ITEMS_PER_PAGE;
          end' = min (int (length (visibleFiles s))) (start + ITEMS_PER_PAGE);
          s1 = s\<lparr>pageItems := jsSlice (visibleFiles s) start end'\<rparr>;
          s2 = buildItemBoxes s1
      in s2\<lparr>selectedIndex := 0\<rparr>)"

text \<open>The dialog messages of a parse and the summary both loaders store.\<close>

fun dialogOf :: "message option list \<Rightarrow> message list" where
  "dialogOf [] = []"
| "dialogOf (None # ms) = dialogOf ms"
| "dialogOf (Some m # ms) =
     (if role m = ''user'' \<or> role m = ''assistant'' then m # dialogOf ms else dialogOf ms)"

definition summaryOf :: "parsed \<Rightarrow> summary" where
  "summaryOf p =
     (let dialog = dialogOf (messages p) in
      \<lparr>count = length dialog,
       lastRole = (case rev dialog of
                     [] \<Rightarrow> ''-''
                   | l # _ \<Rightarrow> if role l = ''user'' then ''User'' else ''Assistant'')\<rparr>)"

definition loadSummary :: "env \<Rightarrow> int \<Rightarrow> picker \<Rightarrow> picker" where
  "loadSummary E i s =
     (case itemAt (pageItems s) i of
        None \<Rightarrow> s
      | Some f \<Rightarrow>
          let s1 = logRead (SummaryRead (path f)) s in
          if msgSummaryCache s1 (path f) \<noteq> None then s1
          else (case parseSessionFile E (path f) of
                  Inl _ \<Rightarrow> s1
                | Inr p \<Rightarrow>
                    updateItemBox i
                      (s1\<lparr>msgSummaryCache := (msgSummaryCache s1)(path f \<mapsto> summaryOf p)\<rparr>)))"

text \<open>\<open>loadMeta\<close> dereferences \<open>pageItems[i]\<close> without a check: outside the page the
  async function rejects with a TypeError.\<close>

definition loadMeta :: "env \<Rightarrow> int \<Rightarrow> picker \<Rightarrow> error + picker" where
  "loadMeta E i s =
     (case itemAt (pageItems s) i of
        None \<Rightarrow> Inl TypeError
      | Some f \<Rightarrow>
          let s1 = logRead (MetaRead (path f)) s in
          if metaCache s1 (path f) \<noteq> None then Inr s1
          else (case quickMeta E (path f) of
                  None \<Rightarrow> Inr s1
                | Some m \<Rightarrow>
                    let s2 = s1\<lparr>metaCache := (metaCache s1)(path f \<mapsto> m)\<rparr>
                    in Inr (if \<not> destroyed s2 then updateItemBox i s2 else s2)))"

definition updatePreviewForIndex :: "env \<Rightarrow> int \<Rightarrow> picker \<Rightarrow> picker" where
  "updatePreviewForIndex E idx s =
     (case itemAt (pageItems s) idx of
        None \<Rightarrow> s
      | Some f \<Rightarrow>
          let s1 = logRead (MetaRead (path f)) s;
              wrapW = getPreviewInnerWidth s1;
              cacheKey = previewKey (path f) wrapW;
              s2 = logRead (PreviewRead cacheKey) s1
          in (case previewCache s2 cacheKey of
                Some b \<Rightarrow> (logRead (PreviewRead cacheKey) s2)\<lparr>previewContent := b\<rparr>
              | None \<Rightarrow>
                  let s3 = s2\<lparr>previewContent := ustr ''Loading'' @ [8230]\<rparr> in
                  (case parseSessionFile E (path f) of
                     Inr p \<Rightarrow>
                       let s4 = s3\<lparr>msgSummaryCache := (msgSummaryCache s3)(path f \<mapsto> summaryOf p)\<rparr>;
                           s5 = updateItemBox idx s4;
                           body = buildDialogPreviewBlocks (stringWidth E) (dayjsFormat E) (chalkHex E)
                                    (messages p) (hide E) (Some wrapW);
                           s6 = s5\<lparr>previewCache := (previewCache s5)(cacheKey \<mapsto> body)\<rparr>
                       in if \<not> destroyed s6 then s6\<lparr>previewContent := body\<rparr> else s6
                   | Inl msg \<Rightarrow>
                       if \<not> destroyed s3
                       then s3\<lparr>previewContent := ustr ''Preview failed: '' @ ustr msg\<rparr>
                       else s3)))"


subsection \<open>Screen key handlers\<close>

text \<open>\<open>resolve\<close> of the promise \<open>pickSessionSplitTUI\<close> returns: only the first call counts.\<close>

definition resolve :: "action option \<Rightarrow> picker \<Rightarrow> picker" where
  "resolve a s = (if resolved s = None then s\<lparr>resolved := Some a\<rparr> else s)"

text \<open>\<open>destroyed = true; screen.destroy()\<close>.\<close>

definition destroyScreen :: "picker \<Rightarrow> picker" where
  "destroyScreen s = s\<lparr>destroyed := True, screenDestroyed := True\<rparr>"

text \<open>The \<open>switch\<close> of the navigation handler.\<close>

fun navTarget :: "key \<Rightarrow> int \<Rightarrow> int \<Rightarrow> int" where
  "navTarget KeyUp sel n = max 0 (sel - 1)"
| "navTarget KeyDown sel n = min (n - 1) (sel + 1)"
| "navTarget KeyPageUp sel n = max 0 (sel - 5)"
| "navTarget KeyPageDown sel n = min (n - 1) (sel + 5)"
| "navTarget KeyHome sel n = 0"
| "navTarget KeyEnd sel n = n - 1"
| "navTarget _ sel n = sel"

text \<open>The handler registered for each of \<open>navKeys\<close>.  The \<open>loadMeta\<close> calls are not
  awaited; a rejection of one of them is an unhandled rejection, returned here as the
  error.\<close>

definition navKey :: "env \<Rightarrow> key \<Rightarrow> picker \<Rightarrow> error + picker" where
  "navKey E k s =
     (if modalActive s then Inr s
      else
        let n = int (length (pageItems s));
            sel = navTarget k (selectedIndex s) n;
            s1 = setSelectedIndex sel s;
            s2 = updatePreviewForIndex E sel s1
        in bindE (loadMeta E sel s2) (\<lambda>s3.
           let s4 = loadSummary E sel s3 in
           bindE (if sel + 1 < n then loadMeta E (sel + 1) s4 else Inr s4) (\<lambda>s5.
           bindE (if sel - 1 \<ge> 0 then loadMeta E (sel - 1) s5 else Inr s5) (\<lambda>s6.
           let s7 = (if sel + 1 < n then loadSummary E (sel + 1) s6 else s6);
               s8 = (if sel - 1 \<ge> 0 then loadSummary E (sel - 1) s7 else s7)
           in Inr s8))))"

definition leftKey :: "env \<Rightarrow> picker \<Rightarrow> picker" where
  "leftKey E s =
     (if modalActive s then s
      else if currentPage s > 0 then
        let s1 = updatePageItems (s\<lparr>currentPage := currentPage s - 1\<rparr>);
            s2 = s1\<lparr>idxLoad := 0, idxSum := 0\<rparr>
        in updatePreviewForIndex E 0 s2
      else s)"

definition rightKey :: "env \<Rightarrow> picker \<Rightarrow> picker" where
  "rightKey E s =
     (if modalActive s then s
      else
        let totalPages = ceilPages (length (visibleFiles s)) in
        if currentPage s < totalPages - 1 then
          let s1 = updatePageItems (s\<lparr>currentPage := currentPage s + 1\<rparr>);
              s2 = s1\<lparr>idxLoad := 0, idxSum := 0\<rparr>
          in updatePreviewForIndex E 0 s2
        else s)"

text \<open>The \<open>f\<close> handler: flip, relayout, scroll to the bottom, render.\<close>

definition toggleFullView :: "env \<Rightarrow> picker \<Rightarrow> picker" where
  "toggleFullView E s =
     (if modalActive s then s else applyLayout E (s\<lparr>fullView := \<not> fullView s\<rparr>))"

text \<open>\<open>askEditOptions\<close> opens the text box seeded with \<open>editedArgs\<close>; it does not touch
  \<open>modalActive\<close>.\<close>

definition askEditOptions :: "picker \<Rightarrow> picker" where
  "askEditOptions s = s\<lparr>overlays := EditOptions (editedArgs s) # overlays s\<rparr>"

text \<open>The \<open>c\<close> handler up to the clipboard write.\<close>

definition copyKey :: "env \<Rightarrow> picker \<Rightarrow> picker" where
  "copyKey E s =
     (case selectedFile s of
        None \<Rightarrow> s
      | Some f \<Rightarrow>
          let s1 = logRead (MetaRead (path f)) s in
          (case metaCache s1 (path f) of
             Some m \<Rightarrow> s1
           | None \<Rightarrow> (case quickMeta E (path f) of
                        Some m \<Rightarrow> s1\<lparr>metaCache := (metaCache s1)(path f \<mapsto> m)\<rparr>
                      | None \<Rightarrow> s1)))"

definition confirmDeleteDialog :: "string \<Rightarrow> session_file \<Rightarrow> picker \<Rightarrow> picker" where
  "confirmDeleteDialog ident f s =
     s\<lparr>modalActive := True, overlays := ConfirmDelete ident f 1 # overlays s\<rparr>"

text \<open>The \<open>d\<close> handler after \<open>await deleteSelectedFile()\<close>.\<close>

definition afterDelete :: "picker \<Rightarrow> picker" where
  "afterDelete s =
     (if visibleFiles s = [] then resolve None (if \<not> destroyed s then destroyScreen s else s)
      else s)"

text \<open>\<open>deleteSelectedFile\<close> up to the point where it waits for the dialog.\<close>

definition deleteSelectedFile :: "env \<Rightarrow> picker \<Rightarrow> picker" where
  "deleteSelectedFile E s =
     (case selectedFile s of
        None \<Rightarrow> afterDelete s
      | Some f \<Rightarrow>
          let s1 = logRead (MetaRead (path f)) s;
              fetched = (case metaCache s1 (path f) of
                           Some m \<Rightarrow> Some m
                         | None \<Rightarrow> quickMeta E (path f));
              s2 = (case metaCache s1 (path f) of
                      Some m \<Rightarrow> s1
                    | None \<Rightarrow> (case fetched of
                                 Some m \<Rightarrow> s1\<lparr>metaCache := (metaCache s1)(path f \<mapsto> m)\<rparr>
                               | None \<Rightarrow> s1));
              fallback = (if rel f \<noteq> [] then rel f else path f);
              ident = (case fetched of
                         Some m \<Rightarrow> if meta_id m \<noteq> [] then meta_id m else fallback
                       | None \<Rightarrow> fallback)
          in confirmDeleteDialog ident f s2)"

text \<open>The rest of \<open>deleteSelectedFile\<close>, from the dialog's answer on, for the file \<open>f\<close>
  it captured; the failure branch stops at the notice it opens.\<close>

definition deleteConfirmed :: "env \<Rightarrow> session_file \<Rightarrow> bool \<Rightarrow> picker \<Rightarrow> picker" where
  "deleteConfirmed E f confirmed s =
     (if \<not> confirmed then afterDelete s
      else
        (case unlink E (path f) of
           Some msg \<Rightarrow> s\<lparr>overlays := DeleteFailed msg # overlays s\<rparr>
         | None \<Rightarrow>
             let s1 = s\<lparr>metaCache := (metaCache s)(path f := None),
                        msgSummaryCache := (msgSummaryCache s)(path f := None),
                        previewCache := (\<lambda>key. if prefix (path f @ ''::'') key then None
                                               else previewCache s key)\<rparr>;
                 s2 = s1\<lparr>visibleFiles := filter (\<lambda>it. path it \<noteq> path f) (visibleFiles s1)\<rparr>
             in if visibleFiles s2 = [] then afterDelete (destroyScreen s2)
                else
                  let totalPages = max 1 (ceilPages (length (visibleFiles s2)));
                      s3 = (if currentPage s2 \<ge> totalPages
                            then s2\<lparr>currentPage := totalPages - 1\<rparr> else s2);
                      prevSel = selectedIndex s3;
                      s4 = updatePageItems s3;
                      newSel = max 0 (min prevSel (int (length (pageItems s4)) - 1));
                      s5 = setSelectedIndex newSel s4;
                      s6 = updatePreviewForIndex E newSel s5
                  in afterDelete s6))"

definition resumeKey :: "picker \<Rightarrow> error + picker" where
  "resumeKey s =
     (if modalActive s then Inr s
      else
        (case selectedFile s of
           None \<Rightarrow> Inl TypeError
         | Some f \<Rightarrow> Inr (resolve (Some (Resume (path f) (editedArgs s))) (destroyScreen s))))"

definition startNewKey :: "env \<Rightarrow> picker \<Rightarrow> picker" where
  "startNewKey E s =
     (if modalActive s then s
      else
        (case selectedFile s of
           None \<Rightarrow> s
         | Some f \<Rightarrow>
             resolve (Some (StartNew (map_option cwd (quickMeta E (path f))) (editedArgs s)))
               (destroyScreen s)))"

definition workspaceKey :: "env \<Rightarrow> picker \<Rightarrow> picker" where
  "workspaceKey E s =
     (if modalActive s \<or> \<not> workspaceMode E then s
      else resolve (Some WorkspaceCreate) (destroyScreen s))"

definition quitKey :: "picker \<Rightarrow> picker" where
  "quitKey s = (if modalActive s then s else resolve None (destroyScreen s))"

text \<open>The handler \<open>screen.key\<close> registered for a key.  \<open>j\<close> and \<open>k\<close> only scroll the
  preview box; no screen handler is registered for \<open>y\<close>.\<close>

fun screenKey :: "env \<Rightarrow> key \<Rightarrow> picker \<Rightarrow> error + picker" where
  "screenKey E KeyLeft s = Inr (leftKey E s)"
| "screenKey E KeyRight s = Inr (rightKey E s)"
| "screenKey E KeyJ s = Inr s"
| "screenKey E KeyK s = Inr s"
| "screenKey E KeyF s = Inr (toggleFullView E s)"
| "screenKey E KeyMinus s = Inr (if modalActive s then s else askEditOptions s)"
| "screenKey E KeyC s = Inr (copyKey E s)"
| "screenKey E KeyD s = Inr (if modalActive s then s else deleteSelectedFile E s)"
| "screenKey E KeyN s = Inr (startNewKey E s)"
| "screenKey E KeyS s = Inr (workspaceKey E s)"
| "screenKey E KeyQ s = Inr (quitKey s)"
| "screenKey E KeyCtrlC s = Inr (quitKey s)"
| "screenKey E KeyEscape s = Inr (quitKey s)"
| "screenKey E KeyEnter s = resumeKey s"
| "screenKey E KeyY s = Inr s"
| "screenKey E k s = navKey E k s"

subsection \<open>Overlay handlers\<close>

text \<open>\<open>finish(ans)\<close> of the confirmation dialog, followed by the code that was waiting
  for it.\<close>

definition finish :: "env \<Rightarrow> session_file \<Rightarrow> overlay list \<Rightarrow> bool \<Rightarrow> picker \<Rightarrow> picker" where
  "finish E f others ans s =
     deleteConfirmed E f ans (s\<lparr>overlays := others, modalActive := False\<rparr>)"

text \<open>The key handlers of the focused overlay (the one opened last).\<close>

definition overlayKey :: "env \<Rightarrow> key \<Rightarrow> picker \<Rightarrow> picker" where
  "overlayKey E k s =
     (case overlays s of
        [] \<Rightarrow> s
      | ConfirmDelete ident f selected # others \<Rightarrow>
          (case k of
             KeyLeft \<Rightarrow> s\<lparr>overlays := ConfirmDelete ident f 0 # others\<rparr>
           | KeyRight \<Rightarrow> s\<lparr>overlays := ConfirmDelete ident f 1 # others\<rparr>
           | KeyY \<Rightarrow> finish E f others True s
           | KeyN \<Rightarrow> finish E f others False s
           | KeyEnter \<Rightarrow> finish E f others (selected = 0) s
           | KeyEscape \<Rightarrow> finish E f others False s
           | _ \<Rightarrow> s)
      | DeleteFailed msg # others \<Rightarrow>
          (if k = KeyEnter \<or> k = KeyEscape \<or> k = KeyQ
           then afterDelete (s\<lparr>overlays := others\<rparr>) else s)
      | EditOptions v # others \<Rightarrow>
          (if k = KeyEscape then s\<lparr>overlays := others\<rparr> else s))"

text \<open>The \<open>submit\<close> event of the edit-options text box with the entered value.\<close>

definition submitOptions :: "string \<Rightarrow> picker \<Rightarrow> picker" where
  "submitOptions val s =
     (case overlays s of
        EditOptions v # others \<Rightarrow> s\<lparr>editedArgs := val, overlays := others\<rparr>
      | _ \<Rightarrow> s)"

subsection \<open>Prefetch workers\<close>

text \<open>One turn of a worker of the pool started at line 517 (metadata) or 529
  (summaries): while the loop condition holds it takes the next index and loads it,
  otherwise the worker ends.  \<open>metaWorkers\<close> and \<open>sumWorkers\<close> count the workers that
  have not ended.\<close>

definition metaWorker :: "env \<Rightarrow> picker \<Rightarrow> error + picker" where
  "metaWorker E s =
     (if metaWorkers s = 0 then Inr s
      else if idxLoad s < int (length (pageItems s)) \<and> \<not> destroyed s
      then loadMeta E (idxLoad s) (s\<lparr>idxLoad := idxLoad s + 1\<rparr>)
      else Inr (s\<lparr>metaWorkers := metaWorkers s - 1\<rparr>))"

definition summaryWorker :: "env \<Rightarrow> picker \<Rightarrow> picker" where
  "summaryWorker E s =
     (if sumWorkers s = 0 then s
      else if idxSum s < int (length (pageItems s)) \<and> \<not> destroyed s
      then loadSummary E (idxSum s) (s\<lparr>idxSum := idxSum s + 1\<rparr>)
      else s\<lparr>sumWorkers := sumWorkers s - 1\<rparr>)"

subsection \<open>Handlers stopped at an await\<close>

definition suspend :: "task \<Rightarrow> picker \<Rightarrow> picker" where
  "suspend t s = s\<lparr>pending := pending s @ [t]\<rparr>"

text \<open>\<open>loadMeta\<close> up to \<open>await extractSessionMetaQuick\<close>, and from there on.\<close>

definition loadMetaAwait :: "int \<Rightarrow> bool \<Rightarrow> picker \<Rightarrow> error + picker" where
  "loadMetaAwait i worker s =
     (case itemAt (pageItems s) i of
        None \<Rightarrow> Inl TypeError
      | Some f \<Rightarrow>
          let s1 = logRead (MetaRead (path f)) s in
          if metaCache s1 (path f) \<noteq> None then Inr s1
          else Inr (suspend (MetaLoad i f worker)
                      (if worker then s1\<lparr>metaWorkers := metaWorkers s1 - 1\<rparr> else s1)))"

definition loadMetaResume :: "env \<Rightarrow> int \<Rightarrow> session_file \<Rightarrow> picker \<Rightarrow> picker" where
  "loadMetaResume E i f s =
     (case quickMeta E (path f) of
        None \<Rightarrow> s
      | Some m \<Rightarrow>
          let s2 = s\<lparr>metaCache := (metaCache s)(path f \<mapsto> m)\<rparr>
          in if \<not> destroyed s2 then updateItemBox i s2 else s2)"

text \<open>\<open>loadSummary\<close> up to \<open>await parseSessionFile\<close>, and from there on.\<close>

definition loadSummaryAwait :: "int \<Rightarrow> bool \<Rightarrow> picker \<Rightarrow> picker" where
  "loadSummaryAwait i worker s =
     (case itemAt (pageItems s) i of
        None \<Rightarrow> s
      | Some f \<Rightarrow>
          let s1 = logRead (SummaryRead (path f)) s in
          if msgSummaryCache s1 (path f) \<noteq> None then s1
          else suspend (SummaryLoad i f worker)
                 (if worker then s1\<lparr>sumWorkers := sumWorkers s1 - 1\<rparr> else s1))"

definition loadSummaryResume :: "env \<Rightarrow> int \<Rightarrow> session_file \<Rightarrow> picker \<Rightarrow> picker" where
  "loadSummaryResume E i f s =
     (case parseSessionFile E (path f) of
        Inl _ \<Rightarrow> s
      | Inr p \<Rightarrow>
          updateItemBox i (s\<lparr>msgSummaryCache := (msgSummaryCache s)(path f \<mapsto> summaryOf p)\<rparr>))"

text \<open>What the caller of \<open>updatePreviewForIndex\<close> does after it: the loads of the
  navigation handler (lines 557 to 562), each up to its own \<open>await\<close>, or the end of the
  \<open>d\<close> handler.\<close>

fun restAwait :: "rest \<Rightarrow> picker \<Rightarrow> error + picker" where
  "restAwait NoRest s = Inr s"
| "restAwait DeleteRest s = Inr (afterDelete s)"
| "restAwait (NavRest sel) s =
     (let n = int (length (pageItems s)) in
      bindE (loadMetaAwait sel False s) (\<lambda>s3.
      let s4 = loadSummaryAwait sel False s3 in
      bindE (if sel + 1 < n then loadMetaAwait (sel + 1) False s4 else Inr s4) (\<lambda>s5.
      bindE (if sel - 1 \<ge> 0 then loadMetaAwait (sel - 1) False s5 else Inr s5) (\<lambda>s6.
      let s7 = (if sel + 1 < n then loadSummaryAwait (sel + 1) False s6 else s6);
          s8 = (if sel - 1 \<ge> 0 then loadSummaryAwait (sel - 1) False s7 else s7)
      in Inr s8))))"

text \<open>\<open>updatePreviewForIndex\<close> up to \<open>await parseSessionFile\<close> (when it returns before
  that, its caller goes on at once), and from there on.\<close>

definition updatePreviewAwait :: "int \<Rightarrow> rest \<Rightarrow> picker \<Rightarrow> error + picker" where
  "updatePreviewAwait idx r s =
     (case itemAt (pageItems s) idx of
        None \<Rightarrow> restAwait r s
      | Some f \<Rightarrow>
          let s1 = logRead (MetaRead (path f)) s;
              wrapW = getPreviewInnerWidth s1;
              cacheKey = previewKey (path f) wrapW;
              s2 = logRead (PreviewRead cacheKey) s1
          in (case previewCache s2 cacheKey of
                Some b \<Rightarrow> restAwait r ((logRead (PreviewRead cacheKey) s2)\<lparr>previewContent := b\<rparr>)
              | None \<Rightarrow>
                  Inr (suspend (PreviewLoad idx f wrapW r)
                         (s2\<lparr>previewContent := ustr ''Loading'' @ [8230]\<rparr>))))"

definition updatePreviewResume :: "env \<Rightarrow> int \<Rightarrow> session_file \<Rightarrow> int \<Rightarrow> picker \<Rightarrow> picker" where
  "updatePreviewResume E idx f wrapW s =
     (case parseSessionFile E (path f) of
        Inr p \<Rightarrow>
          let s4 = s\<lparr>msgSummaryCache := (msgSummaryCache s)(path f \<mapsto> summaryOf p)\<rparr>;
              s5 = updateItemBox idx s4;
              body = buildDialogPreviewBlocks (stringWidth E) (dayjsFormat E) (chalkHex E)
                       (messages p) (hide E) (Some wrapW);
              s6 = s5\<lparr>previewCache := (previewCache s5)(previewKey (path f) wrapW \<mapsto> body)\<rparr>
          in if \<not> destroyed s6 then s6\<lparr>previewContent := body\<rparr> else s6
      | Inl msg \<Rightarrow>
          if \<not> destroyed s
          then s\<lparr>previewContent := ustr ''Preview failed: '' @ ustr msg\<rparr>
          else s)"

text \<open>The navigation and page handlers up to the \<open>await\<close> inside
  \<open>updatePreviewForIndex\<close>.\<close>

definition navKeyAwait :: "key \<Rightarrow> picker \<Rightarrow> error + picker" where
  "navKeyAwait k s =
     (if modalActive s then Inr s
      else
        let n = int (length (pageItems s));
            sel = navTarget k (selectedIndex s) n;
            s1 = setSelectedIndex sel s
        in updatePreviewAwait sel (NavRest sel) s1)"

definition leftKeyAwait :: "picker \<Rightarrow> error + picker" where
  "leftKeyAwait s =
     (if modalActive s then Inr s
      else if currentPage s > 0 then
        let s1 = updatePageItems (s\<lparr>currentPage := currentPage s - 1\<rparr>);
            s2 = s1\<lparr>idxLoad := 0, idxSum := 0\<rparr>
        in updatePreviewAwait 0 NoRest s2
      else Inr s)"

definition rightKeyAwait :: "picker \<Rightarrow> error + picker" where
  "rightKeyAwait s =
     (if modalActive s then Inr s
      else
        let totalPages = ceilPages (length (visibleFiles s)) in
        if currentPage s < totalPages - 1 then
          let s1 = updatePageItems (s\<lparr>currentPage := currentPage s + 1\<rparr>);
              s2 = s1\<lparr>idxLoad := 0, idxSum := 0\<rparr>
          in updatePreviewAwait 0 NoRest s2
        else Inr s)"

text \<open>The \<open>c\<close> and \<open>n\<close> handlers up to their metadata lookup, and from there on.\<close>

definition copyKeyAwait :: "picker \<Rightarrow> picker" where
  "copyKeyAwait s =
     (case selectedFile s of
        None \<Rightarrow> s
      | Some f \<Rightarrow>
          let s1 = logRead (MetaRead (path f)) s in
          (case metaCache s1 (path f) of
             Some m \<Rightarrow> s1
           | None \<Rightarrow> suspend (CopyLookup f) s1))"

definition copyKeyResume :: "env \<Rightarrow> session_file \<Rightarrow> picker \<Rightarrow> picker" where
  "copyKeyResume E f s =
     (case quickMeta E (path f) of
        Some m \<Rightarrow> s\<lparr>metaCache := (metaCache s)(path f \<mapsto> m)\<rparr>
      | None \<Rightarrow> s)"

definition startNewKeyAwait :: "picker \<Rightarrow> picker" where
  "startNewKeyAwait s =
     (if modalActive s then s
      else
        (case selectedFile s of
           None \<Rightarrow> s
         | Some f \<Rightarrow> suspend (NewLookup f) s))"

definition startNewKeyResume :: "env \<Rightarrow> session_file \<Rightarrow> picker \<Rightarrow> picker" where
  "startNewKeyResume E f s =
     resolve (Some (StartNew (map_option cwd (quickMeta E (path f))) (editedArgs s)))
       (destroyScreen s)"

text \<open>\<open>deleteSelectedFile\<close> up to its metadata lookup (with the metadata cached it opens
  the dialog at once), from the lookup to the dialog, from the dialog's answer to
  \<open>await fs.unlink\<close>, and from there on.  \<open>modalActive\<close> is set when the dialog opens.\<close>

definition deleteIdent :: "meta option \<Rightarrow> session_file \<Rightarrow> string" where
  "deleteIdent fetched f =
     (let fallback = (if rel f \<noteq> [] then rel f else path f)
      in case fetched of
           Some m \<Rightarrow> if meta_id m \<noteq> [] then meta_id m else fallback
         | None \<Rightarrow> fallback)"

definition deleteSelectedFileAwait :: "picker \<Rightarrow> picker" where
  "deleteSelectedFileAwait s =
     (case selectedFile s of
        None \<Rightarrow> afterDelete s
      | Some f \<Rightarrow>
          let s1 = logRead (MetaRead (path f)) s in
          (case metaCache s1 (path f) of
             Some m \<Rightarrow> confirmDeleteDialog (deleteIdent (Some m) f) f s1
           | None \<Rightarrow> suspend (DeleteLookup f) s1))"

definition deleteLookupResume :: "env \<Rightarrow> session_file \<Rightarrow> picker \<Rightarrow> picker" where
  "deleteLookupResume E f s =
     (let fetched = quickMeta E (path f);
          s2 = (case fetched of
                  Some m \<Rightarrow> s\<lparr>metaCache := (metaCache s)(path f \<mapsto> m)\<rparr>
                | None \<Rightarrow> s)
      in confirmDeleteDialog (deleteIdent fetched f) f s2)"

definition finishAwait :: "session_file \<Rightarrow> overlay list \<Rightarrow> bool \<Rightarrow> picker \<Rightarrow> picker" where
  "finishAwait f others ans s =
     (let s0 = s\<lparr>overlays := others, modalActive := False\<rparr>
      in if ans then suspend (Unlinking f) s0 else afterDelete s0)"

definition unlinkResume :: "env \<Rightarrow> session_file \<Rightarrow> picker \<Rightarrow> error + picker" where
  "unlinkResume E f s =
     (case unlink E (path f) of
        Some msg \<Rightarrow> Inr (s\<lparr>overlays := DeleteFailed msg # overlays s\<rparr>)
      | None \<Rightarrow>
          let s1 = s\<lparr>metaCache := (metaCache s)(path f := None),
                     msgSummaryCache := (msgSummaryCache s)(path f := None),
                     previewCache := (\<lambda>key. if prefix (path f @ ''::'') key then None
                                            else previewCache s key)\<rparr>;
              s2 = s1\<lparr>visibleFiles := filter (\<lambda>it. path it \<noteq> path f) (visibleFiles s1)\<rparr>
          in if visibleFiles s2 = [] then Inr (afterDelete (destroyScreen s2))
             else
               let totalPages = max 1 (ceilPages (length (visibleFiles s2)));
                   s3 = (if currentPage s2 \<ge> totalPages
                         then s2\<lparr>currentPage := totalPages - 1\<rparr> else s2);
                   prevSel = selectedIndex s3;
                   s4 = updatePageItems s3;
                   newSel = max 0 (min prevSel (int (length (pageItems s4)) - 1));
                   s5 = setSelectedIndex newSel s4
               in updatePreviewAwait newSel DeleteRest s5)"

text \<open>The screen and overlay handlers in this reading; a handler that makes no external
  call is the one given before.\<close>

fun screenKeyAwait :: "env \<Rightarrow> key \<Rightarrow> picker \<Rightarrow> error + picker" where
  "screenKeyAwait E KeyLeft s = leftKeyAwait s"
| "screenKeyAwait E KeyRight s = rightKeyAwait s"
| "screenKeyAwait E KeyC s = Inr (copyKeyAwait s)"
| "screenKeyAwait E KeyD s = Inr (if modalActive s then s else deleteSelectedFileAwait s)"
| "screenKeyAwait E KeyN s = Inr (startNewKeyAwait s)"
| "screenKeyAwait E KeyUp s = navKeyAwait KeyUp s"
| "screenKeyAwait E KeyDown s = navKeyAwait KeyDown s"
| "screenKeyAwait E KeyPageUp s = navKeyAwait KeyPageUp s"
| "screenKeyAwait E KeyPageDown s = navKeyAwait KeyPageDown s"
| "screenKeyAwait E KeyHome s = navKeyAwait KeyHome s"
| "screenKeyAwait E KeyEnd s = navKeyAwait KeyEnd s"
| "screenKeyAwait E k s = screenKey E k s"

definition overlayKeyAwait :: "env \<Rightarrow> key \<Rightarrow> picker \<Rightarrow> picker" where
  "overlayKeyAwait E k s =
     (case overlays s of
        ConfirmDelete ident f selected # others \<Rightarrow>
          (case k of
             KeyY \<Rightarrow> finishAwait f others True s
           | KeyN \<Rightarrow> finishAwait f others False s
           | KeyEnter \<Rightarrow> finishAwait f others (selected = 0) s
           | KeyEscape \<Rightarrow> finishAwait f others False s
           | _ \<Rightarrow> overlayKey E k s)
      | _ \<Rightarrow> overlayKey E k s)"

text \<open>The external call of a task returns: the code after its \<open>await\<close> runs, up to the
  next \<open>await\<close> of an external call or to its end.  A worker whose load has returned is
  back at the head of its loop.\<close>

fun resume :: "env \<Rightarrow> task \<Rightarrow> picker \<Rightarrow> error + picker" where
  "resume E (MetaLoad i f worker) s =
     (let t = loadMetaResume E i f s
      in Inr (if worker then t\<lparr>metaWorkers := metaWorkers t + 1\<rparr> else t))"
| "resume E (SummaryLoad i f worker) s =
     (let t = loadSummaryResume E i f s
      in Inr (if worker then t\<lparr>sumWorkers := sumWorkers t + 1\<rparr> else t))"
| "resume E (PreviewLoad idx f wrapW r) s = restAwait r (updatePreviewResume E idx f wrapW s)"
| "resume E (CopyLookup f) s = Inr (copyKeyResume E f s)"
| "resume E (NewLookup f) s = Inr (startNewKeyResume E f s)"
| "resume E (DeleteLookup f) s = Inr (deleteLookupResume E f s)"
| "resume E (Unlinking f) s = unlinkResume E f s"

text \<open>One turn of a prefetch worker whose load is left waiting.\<close>

definition metaWorkerAwait :: "picker \<Rightarrow> error + picker" where
  "metaWorkerAwait s =
     (if metaWorkers s = 0 then Inr s
      else if idxLoad s < int (length (pageItems s)) \<and> \<not> destroyed s
      then loadMetaAwait (idxLoad s) True (s\<lparr>idxLoad := idxLoad s + 1\<rparr>)
      else Inr (s\<lparr>metaWorkers := metaWorkers s - 1\<rparr>))"

definition summaryWorkerAwait :: "picker \<Rightarrow> picker" where
  "summaryWorkerAwait s =
     (if sumWorkers s = 0 then s
      else if idxSum s < int (length (pageItems s)) \<and> \<not> destroyed s
      then loadSummaryAwait (idxSum s) True (s\<lparr>idxSum := idxSum s + 1\<rparr>)
      else s\<lparr>sumWorkers := sumWorkers s - 1\<rparr>)"

subsection \<open>The picker as a machine\<close>

text \<open>
  How the terminal library (blessed) delivers a key.  The handlers registered with
  \<open>screen.key\<close> run first; then the handlers of the element that had the focus when the
  key arrived run.  The overlay opened last is taken to have the focus when there is one.
  While the text box of the edit-options overlay has the focus it reads input and grabs
  the keys: the screen handlers do not run, enter submits the value, escape closes the
  overlay, and a printable key is appended to the value.  When a screen handler gives the
  focus to the text box, the key goes no further.  A destroyed screen delivers no key.
\<close>

definition keyChar :: "key \<Rightarrow> char option" where
  "keyChar k =
     (case k of
        KeyJ \<Rightarrow> Some CHR ''j'' | KeyK \<Rightarrow> Some CHR ''k'' | KeyF \<Rightarrow> Some CHR ''f''
      | KeyMinus \<Rightarrow> Some CHR ''-'' | KeyC \<Rightarrow> Some CHR ''c'' | KeyD \<Rightarrow> Some CHR ''d''
      | KeyN \<Rightarrow> Some CHR ''n'' | KeyS \<Rightarrow> Some CHR ''s'' | KeyQ \<Rightarrow> Some CHR ''q''
      | KeyY \<Rightarrow> Some CHR ''y'' | _ \<Rightarrow> None)"

definition grabbing :: "picker \<Rightarrow> bool" where
  "grabbing s = (case overlays s of EditOptions v # others \<Rightarrow> True | _ \<Rightarrow> False)"

definition textboxKey :: "env \<Rightarrow> key \<Rightarrow> picker \<Rightarrow> picker" where
  "textboxKey E k s =
     (case overlays s of
        EditOptions v # others \<Rightarrow>
          if k = KeyEnter then submitOptions v s
          else (case keyChar k of
                  Some c \<Rightarrow> s\<lparr>overlays := EditOptions (v @ [c]) # others\<rparr>
                | None \<Rightarrow> overlayKey E k s)
      | _ \<Rightarrow> s)"

definition dispatch :: "(key \<Rightarrow> picker \<Rightarrow> error + picker) \<Rightarrow> (key \<Rightarrow> picker \<Rightarrow> picker) \<Rightarrow> env
                         \<Rightarrow> key \<Rightarrow> picker \<Rightarrow> error + picker" where
  "dispatch onScreen onOverlay E k s =
     (if screenDestroyed s then Inr s
      else if grabbing s then Inr (textboxKey E k s)
      else bindE (onScreen k s)
             (\<lambda>t. Inr (if overlays s = [] \<or> grabbing t then t else onOverlay k t)))"

text \<open>
  What can happen next.  A key arrives: \<open>Key k\<close> when every external call its handlers
  make returns before the next event, \<open>KeyAwait k\<close> when the handlers are left at their
  first \<open>await\<close> of an external call.  \<open>Submit val\<close> is the user replacing the value of the
  text box by \<open>val\<close> and pressing enter.  A prefetch worker takes a turn, its load
  returning at once (\<open>MetaWorkerTurn\<close>, \<open>SummaryWorkerTurn\<close>) or left waiting.
  \<open>Complete n\<close>: the external call of the \<open>n\<close>-th waiting task returns, whether or not
  the screen has been destroyed since.
\<close>

datatype event =
    Key key
  | KeyAwait key
  | Submit string
  | MetaWorkerTurn
  | SummaryWorkerTurn
  | MetaWorkerAwait
  | SummaryWorkerAwait
  | Complete nat

fun step :: "env \<Rightarrow> event \<Rightarrow> picker \<Rightarrow> error + picker" where
  "step E (Key k) s = dispatch (screenKey E) (overlayKey E) E k s"
| "step E (KeyAwait k) s = dispatch (screenKeyAwait E) (overlayKeyAwait E) E k s"
| "step E (Submit val) s = Inr (if screenDestroyed s then s else submitOptions val s)"
| "step E MetaWorkerTurn s = metaWorker E s"
| "step E SummaryWorkerTurn s = Inr (summaryWorker E s)"
| "step E MetaWorkerAwait s = metaWorkerAwait s"
| "step E SummaryWorkerAwait s = Inr (summaryWorkerAwait s)"
| "step E (Complete n) s =
     (if n < length (pending s)
      then resume E (pending s ! n) (s\<lparr>pending := take n (pending s) @ drop (Suc n) (pending s)\<rparr>)
      else Inr s)"

fun run :: "env \<Rightarrow> event list \<Rightarrow> picker \<Rightarrow> error + picker" where
  "run E [] s = Inr s"
| "run E (ev # evs) s = bindE (step E ev s) (run E evs)"

text \<open>The same key handler applied \<open>n\<close> times.\<close>

fun repeatKey :: "env \<Rightarrow> key \<Rightarrow> nat \<Rightarrow> picker \<Rightarrow> error + picker" where
  "repeatKey E k 0 s = Inr s"
| "repeatKey E k (Suc n) s = bindE (screenKey E k s) (repeatKey E k n)"

text \<open>\<open>pickSessionSplitTUI\<close> from its first line to the registration of the handlers,
  for the file list \<open>files\<close> on a terminal \<open>width\<close> columns wide: with no file it
  returns \<open>null\<close> at once (no screen is created); otherwise the first page is built, the
  two worker pools (8 and 3 workers) are started and the first preview is loaded.  The
  turns of the workers, the first ones too, are events of the machine; the key handlers
  are registered once the first preview has been loaded.\<close>

definition initialPicker :: "env \<Rightarrow> session_file list \<Rightarrow> int \<Rightarrow> picker" where
  "initialPicker E files width =
     \<lparr>visibleFiles = files, currentPage = 0, pageItems = [], selectedIndex = 0,
      fullView = False, modalActive = False, destroyed = False, screenDestroyed = False,
      editedArgs = [], metaCache = Map.empty, msgSummaryCache = Map.empty,
      previewCache = Map.empty, previewContent = [], idxLoad = 0, idxSum = 0,
      metaWorkers = 0, sumWorkers = 0, screenWidth = width,
      totalW = (if width \<noteq> 0 then width else 100),
      leftW = max 30 (floorScaled E (if width \<noteq> 0 then width else 100)),
      overlays = [], resolved = None, cacheReads = [], pending = []\<rparr>"

definition pickSessionSplitTUI :: "env \<Rightarrow> session_file list \<Rightarrow> int \<Rightarrow> picker" where
  "pickSessionSplitTUI E files width =
     (if files = [] then (initialPicker E files width)\<lparr>screenDestroyed := True, resolved := Some None\<rparr>
      else
        let s1 = updatePageItems (initialPicker E files width);
            s2 = s1\<lparr>idxLoad := 0, metaWorkers := 8, idxSum := 0, sumWorkers := 3\<rparr>;
            s3 = setSelectedIndex 0 s2;
            s4 = updatePreviewForIndex E 0 s3
        in applyLayout E s4)"

section \<open>Auxiliary notions\<close>

text \<open>The quantity \<open>wrapPlainLine\<close> adds up and compares with \<open>maxWidth\<close>: string-width
  of each code point taken on its own, summed over the string.  It is not the display
  width of the string, which is \<open>stringWidth\<close> of the whole string.\<close>

definition summedWidth :: "(ustring \<Rightarrow> nat) \<Rightarrow> ustring \<Rightarrow> nat" where
  "summedWidth sw s = sum_list (map (\<lambda>c. sw [c]) s)"

text \<open>The reads one list row makes when it is drawn: the metadata entry, then the summary.\<close>

definition itemReads :: "session_file \<Rightarrow> cacheRead list" where
  "itemReads f = [MetaRead (path f), SummaryRead (path f)]"

text \<open>Two states that differ at most in the three caches, the text of the preview box
  and the log of cache reads.\<close>

definition sameControl :: "picker \<Rightarrow> picker \<Rightarrow> bool" where
  "sameControl s t \<longleftrightarrow>
     visibleFiles t = visibleFiles s \<and> currentPage t = currentPage s \<and>
     pageItems t = pageItems s \<and> selectedIndex t = selectedIndex s \<and>
     fullView t = fullView s \<and> modalActive t = modalActive s \<and>
     destroyed t = destroyed s \<and> screenDestroyed t = screenDestroyed s \<and>
     editedArgs t = editedArgs s \<and> idxLoad t = idxLoad s \<and> idxSum t = idxSum s \<and>
     metaWorkers t = metaWorkers s \<and> sumWorkers t = sumWorkers s \<and>
     screenWidth t = screenWidth s \<and> totalW t = totalW s \<and> leftW t = leftW s \<and>
     overlays t = overlays s \<and> resolved t = resolved s \<and> pending t = pending s"

text \<open>Everything of the state that the prefetch workers leave alone.\<close>

definition samePage :: "picker \<Rightarrow> picker \<Rightarrow> bool" where
  "samePage s t \<longleftrightarrow>
     visibleFiles t = visibleFiles s \<and> currentPage t = currentPage s \<and>
     pageItems t = pageItems s \<and> selectedIndex t = selectedIndex s \<and>
     fullView t = fullView s \<and> modalActive t = modalActive s \<and>
     destroyed t = destroyed s \<and> screenDestroyed t = screenDestroyed s \<and>
     editedArgs t = editedArgs s \<and> screenWidth t = screenWidth s \<and>
     totalW t = totalW s \<and> leftW t = leftW s \<and>
     overlays t = overlays s \<and> resolved t = resolved s \<and>
     previewCache t = previewCache s \<and> previewContent t = previewContent s \<and>
     pending t = pending s"

section \<open>Concrete inputs\<close>

text \<open>A width function in the manner of string-width.  Escape sequences (from the
  escape character 27 to the final \<open>m\<close>) are removed first.  A keycap sequence (a digit,
  the variation selector 65039 and the combining enclosing keycap 8419) is one emoji and
  takes two columns.  Any other code point counts on its own: control characters,
  combining marks, the zero-width joiner, the variation selector and the enclosing keycap
  take no column, CJK ideographs two, and the rest one.\<close>

fun stripAnsi :: "bool \<Rightarrow> ustring \<Rightarrow> ustring" where
  "stripAnsi esc [] = []"
| "stripAnsi esc (c # cs) =
     (if esc then stripAnsi (c \<noteq> 109) cs
      else if c = 27 then stripAnsi True cs
      else c # stripAnsi False cs)"

definition pointWidth :: "nat \<Rightarrow> nat" where
  "pointWidth c =
     (if c < 32 \<or> (127 \<le> c \<and> c < 160) then 0
      else if (768 \<le> c \<and> c \<le> 879) \<or> c = 8205 \<or> c = 8419 \<or> c = 65039 then 0
      else if 19968 \<le> c \<and> c \<le> 40959 then 2
      else 1)"

fun clusterWidth :: "ustring \<Rightarrow> nat" where
  "clusterWidth (d # v # k # rest) =
     (if 48 \<le> d \<and> d \<le> 57 \<and> v = 65039 \<and> k = 8419 then 2 + clusterWidth rest
      else pointWidth d + clusterWidth (v # k # rest))"
| "clusterWidth (c # rest) = pointWidth c + clusterWidth rest"
| "clusterWidth [] = 0"

definition exampleWidth :: "ustring \<Rightarrow> nat" where
  "exampleWidth s = clusterWidth (stripAnsi False s)"

text \<open>A clock, and chalk at two colour levels: at level 0 \<open>chalk.hex\<close> returns the text
  as it is; at level 3 it puts a non-empty text between the true-colour escape sequence of
  the colour and the sequence that resets the foreground.\<close>

definition exampleClock :: "string \<Rightarrow> ustring" where
  "exampleClock d = ustr ''12:34:56''"

definition plainChalk :: chalk where
  "plainChalk colour t = t"

definition hexDigit :: "char \<Rightarrow> nat" where
  "hexDigit c =
     (let n = of_char c in
      if 48 \<le> n \<and> n \<le> 57 then n - 48
      else if 97 \<le> n \<and> n \<le> 102 then n - 87
      else if 65 \<le> n \<and> n \<le> 70 then n - 55
      else 0)"

definition hexByte :: "string \<Rightarrow> nat" where
  "hexByte s = (case s of [a, b] \<Rightarrow> 16 * hexDigit a + hexDigit b | _ \<Rightarrow> 0)"

definition trueColourChalk :: chalk where
  "trueColourChalk colour t =
     (if t = [] then []
      else [27, 91] @ ustr (''38;2;'' @ showNat (hexByte (take 2 (drop 1 colour))) @ '';''
                              @ showNat (hexByte (take 2 (drop 3 colour))) @ '';''
                              @ showNat (hexByte (take 2 (drop 5 colour))) @ ''m'')
           @ t @ [27, 91] @ ustr ''39m'')"

text \<open>A short conversation with a tool turn, and one user turn of eighteen keycap emoji.\<close>

definition exampleMessages :: "message option list" where
  "exampleMessages =
     [Some \<lparr>role = ''user'', msg_text = ustr ''hello'' @ [10] @ ustr ''world'', timestamp = None\<rparr>,
      Some \<lparr>role = ''tool'', msg_text = ustr ''ls -la'', timestamp = Some ''t1''\<rparr>,
      None,
      Some \<lparr>role = ''assistant'', msg_text = [20013, 20013, 20013, 20013, 20013, 20013, 20013, 20013, 20013, 20013,
                                                  20013, 20013],
            timestamp = Some ''t2''\<rparr>]"



text \<open>Three session files, an environment in which every external call succeeds, and the
  same environment with a failing \<open>fs.unlink\<close>.\<close>

definition fileA :: session_file where
  "fileA = \<lparr>path = ''A'', rel = ''a.jsonl'', mtime = 3\<rparr>"

definition fileB :: session_file where
  "fileB = \<lparr>path = ''B'', rel = ''b.jsonl'', mtime = 2\<rparr>"

definition fileC :: session_file where
  "fileC = \<lparr>path = ''C'', rel = ''c.jsonl'', mtime = 1\<rparr>"

definition exampleEnv :: env where
  "exampleEnv =
     \<lparr>quickMeta = (\<lambda>p. Some \<lparr>meta_id = ''id-'' @ p, cwd = ''/work'', startTime = []\<rparr>),
      parseSessionFile = (\<lambda>p. Inr \<lparr>parsed_meta = \<lparr>meta_id = ''id-'' @ p, cwd = ''/work'', startTime = []\<rparr>,
                                     messages = exampleMessages\<rparr>),
      unlink = (\<lambda>p. None),
      stringWidth = exampleWidth,
      dayjsFormat = exampleClock,
      chalkHex = plainChalk,
      floorScaled = (\<lambda>w. (w * 35) div 100),
      hide = [''tool''],
      workspaceMode = False\<rparr>"

definition failingEnv :: env where
  "failingEnv = exampleEnv\<lparr>unlink := (\<lambda>p. Some ''EACCES: permission denied'')\<rparr>"

text \<open>The picker opened on A, B, C in a terminal 100 columns wide.\<close>

definition startABC :: picker where
  "startABC = pickSessionSplitTUI exampleEnv [fileA, fileB, fileC] 100"

text \<open>The scenario of the specification: down, down selects C, then \<open>d\<close> opens the
  confirmation for C.\<close>

definition dialogOnC :: picker where
  "dialogOnC =
     (case run exampleEnv [Key KeyDown, Key KeyDown, Key KeyD] startABC of
        Inr s \<Rightarrow> s
      | Inl e \<Rightarrow> startABC)"

text \<open>The picker opened on A in a terminal 40 columns wide: the split preview is 10
  columns wide, the full one 38.\<close>

definition start40 :: picker where
  "start40 = pickSessionSplitTUI exampleEnv [fileA] 40"

text \<open>Thirty-two session files with pairwise different paths: two pages.\<close>

definition numbered :: "nat \<Rightarrow> session_file" where
  "numbered i = \<lparr>path = CHR ''s'' # replicate i (CHR ''x''), rel = [], mtime = int i\<rparr>"

definition files32 :: "session_file list" where
  "files32 = map numbered [0..<32]"

definition start32 :: picker where
  "start32 = pickSessionSplitTUI exampleEnv files32 100"

section \<open>Properties of the preview formatter\<close>

lemma summedWidth_append: "summedWidth sw (a @ b) = summedWidth sw a + summedWidth sw b"
  by (simp add: summedWidth_def)

lemma summedWidth_Cons: "summedWidth sw (c # b) = sw [c] + summedWidth sw b"
  by (simp add: summedWidth_def)

lemma summedWidth_Nil: "summedWidth sw [] = 0"
  by (simp add: summedWidth_def)









lemma selectLoop_from:
  "it \<in> set (selectLoop ms limit sub) \<Longrightarrow>
   it \<in> set sub \<or> (\<exists>m. Some m \<in> set ms \<and>
      it = \<lparr>it_role = role m, it_text = msg_text m, it_timestamp = timestamp m\<rparr>)"
proof (induction ms arbitrary: sub)
  case Nil
  then show ?case by simp
next
  case (Cons m ms)
  then show ?case
    by (fastforce split: if_splits option.splits)
qed

lemma dialogItems_from:
  assumes "it \<in> set (dialogItems msgs hidden)"
  shows "\<exists>m. Some m \<in> set msgs \<and> set (it_text it) \<subseteq> set (msg_text m) \<and> it_timestamp it = timestamp m"
proof -
  from assms obtain it0 where it0: "it0 \<in> set (selectRecentDialogMessages msgs None)"
    and it: "it = it0\<lparr>it_text := filter (\<lambda>c. c \<noteq> 13) (safeString (it_text it0))\<rparr>"
    by (auto simp: dialogItems_def)
  from it0 have "it0 \<in> set (selectLoop (rev msgs) None [])"
    by (auto simp: selectRecentDialogMessages_def split: if_splits)
  from selectLoop_from [OF this] obtain m where "Some m \<in> set msgs"
    "it0 = \<lparr>it_role = role m, it_text = msg_text m, it_timestamp = timestamp m\<rparr>"
    by auto
  with it show ?thesis by (auto simp: safeString_def)
qed

lemma wrapLoop_cong:
  "\<forall>c\<in>set line. sw1 [c] = sw2 [c] \<Longrightarrow>
   wrapLoop sw1 maxWidth line result cur width = wrapLoop sw2 maxWidth line result cur width"
  by (induction line arbitrary: result cur width) (simp_all add: Let_def)

lemma wrapPlainLine_cong:
  "\<forall>c\<in>set line. sw1 [c] = sw2 [c] \<Longrightarrow> wrapPlainLine sw1 line maxWidth = wrapPlainLine sw2 line maxWidth"
  using wrapLoop_cong [of line sw1 sw2 maxWidth "[]" "[]" 0] by (simp add: wrapPlainLine_def)

lemma splitNL_subset: "l \<in> set (splitNL s) \<Longrightarrow> set l \<subseteq> set s"
proof (induction s arbitrary: l)
  case Nil
  then show ?case by simp
next
  case (Cons c cs)
  show ?case
  proof (cases "splitNL cs")
    case Nil
    with Cons.prems show ?thesis by (auto split: if_splits)
  next
    case (Cons a list)
    have "set a \<subseteq> set cs" "\<And>k. k \<in> set list \<Longrightarrow> set k \<subseteq> set cs"
      using Cons.IH Cons by auto
    with Cons.prems Cons show ?thesis by (auto split: if_splits)
  qed
qed

lemma itemLines_cong:
  assumes "\<forall>c\<in>set (it_text it). sw1 [c] = sw2 [c]" "sw1 [9475, 32] = sw2 [9475, 32]"
    and "\<forall>d. it_timestamp it = Some d \<longrightarrow> fmt1 d = fmt2 d"
    and "\<forall>t. ch1 THEME_gray t = ch2 THEME_gray t"
    and "\<forall>t. ch1 THEME_green t = ch2 THEME_green t"
    and "\<forall>t. ch1 THEME_orange t = ch2 THEME_orange t"
  shows "itemLines sw1 fmt1 (Some ch1) w it = itemLines sw2 fmt2 (Some ch2) w it"
proof -
  have wrap: "wrapPlainLine sw1 raw k = wrapPlainLine sw2 raw k" if "raw \<in> set (splitNL (it_text it))" for raw k
    using splitNL_subset [OF that] assms(1) by (intro wrapPlainLine_cong) blast
  have ts: "(case it_timestamp it of Some d \<Rightarrow> fmt1 d | None \<Rightarrow> []) =
            (case it_timestamp it of Some d \<Rightarrow> fmt2 d | None \<Rightarrow> [])"
    using assms(3) by (cases "it_timestamp it") auto
  show ?thesis
    unfolding itemLines_def Let_def ts assms(2)
    using assms(4,5,6) wrap
    by (cases "it_role it = ''user''"; cases w) (auto intro!: arg_cong [where f = concat] map_cong)
qed





subsection \<open>The example libraries\<close>

lemma exampleWidth_single: "exampleWidth [c] = pointWidth c"
  by (simp add: exampleWidth_def pointWidth_def)

lemma exampleWidth_facts:
  "exampleWidth [9475, 32] = 2" "\<forall>c. exampleWidth [c] \<le> 2" "\<forall>c<128. exampleWidth [c] \<le> 1"
  "exampleWidth [9475] \<le> 1" "\<forall>d. summedWidth exampleWidth (exampleClock d) \<le> 13"
  by (simp_all add: exampleWidth_single summedWidth_def exampleClock_def ustr_def)
     (simp_all add: exampleWidth_def pointWidth_def)






lemma trueColourChalk_theme:
  "t \<noteq> [] \<Longrightarrow> trueColourChalk THEME_orange t = [27, 91] @ ustr ''38;2;255;149;0m'' @ t @ [27, 91] @ ustr ''39m''"
  "t \<noteq> [] \<Longrightarrow> trueColourChalk THEME_green t = [27, 91] @ ustr ''38;2;90;247;142m'' @ t @ [27, 91] @ ustr ''39m''"
  "t \<noteq> [] \<Longrightarrow> trueColourChalk THEME_gray t = [27, 91] @ ustr ''38;2;128;128;128m'' @ t @ [27, 91] @ ustr ''39m''"
  "trueColourChalk colour [] = []"
  by (simp_all add: trueColourChalk_def THEME_orange_def THEME_green_def THEME_gray_def hexByte_def
      hexDigit_def showNat.simps ustr_def)



text \<open>
  C8, as the code has it.  The formatter's result is determined by the message list, the
  hidden roles and the wrap width together with the answers of its three libraries on what
  those inputs contain: string-width on the single code points of the texts and on bar and
  blank, dayjs on the timestamps, and \<open>chalk.hex\<close> of the three theme colours.  Two calls
  on the same three inputs return the same string whenever those answers are the same in
  both; the formatter itself keeps no state.  What chalk answers depends on the colour
  level of the shared chalk instance, and what dayjs answers on the time zone.
\<close>

theorem preview_format_determined_by_inputs_and_libraries:
  assumes "\<And>m c. Some m \<in> set msgs \<Longrightarrow> c \<in> set (msg_text m) \<Longrightarrow> sw1 [c] = sw2 [c]"
    and "sw1 [9475, 32] = sw2 [9475, 32]"
    and "\<And>m d. Some m \<in> set msgs \<Longrightarrow> timestamp m = Some d \<Longrightarrow> fmt1 d = fmt2 d"
    and "\<And>t. ch1 THEME_gray t = ch2 THEME_gray t"
    and "\<And>t. ch1 THEME_green t = ch2 THEME_green t"
    and "\<And>t. ch1 THEME_orange t = ch2 THEME_orange t"
  shows "buildDialogPreviewBlocks sw1 fmt1 ch1 msgs hidden wrapWidth
         = buildDialogPreviewBlocks sw2 fmt2 ch2 msgs hidden wrapWidth"
proof -
  have "itemLines sw1 fmt1 (Some ch1) wrapWidth it = itemLines sw2 fmt2 (Some ch2) wrapWidth it"
    if "it \<in> set (dialogItems msgs hidden)" for it
  proof -
    from dialogItems_from [OF that] obtain m where m: "Some m \<in> set msgs"
      "set (it_text it) \<subseteq> set (msg_text m)" "it_timestamp it = timestamp m"
      by blast
    show ?thesis
    proof (rule itemLines_cong)
      show "\<forall>c\<in>set (it_text it). sw1 [c] = sw2 [c]" using assms(1) m(1,2) by blast
      show "\<forall>d. it_timestamp it = Some d \<longrightarrow> fmt1 d = fmt2 d" using assms(3) m(1,3) by simp
    qed (use assms in simp_all)
  qed
  then have "map (itemLines sw1 fmt1 (Some ch1) wrapWidth) (dialogItems msgs hidden)
           = map (itemLines sw2 fmt2 (Some ch2) wrapWidth) (dialogItems msgs hidden)"
    by simp
  then show ?thesis
    unfolding buildDialogPreviewBlocks_def formatPreviewBlocks_def previewLines_def
    by (rule arg_cong [where f = "\<lambda>ls. joinLines (concat ls)"])
qed

theorem preview_format_determined_by_inputs_and_libraries_witness:
  "buildDialogPreviewBlocks exampleWidth exampleClock trueColourChalk exampleMessages [''tool''] (Some 20)
   = buildDialogPreviewBlocks (\<lambda>s. if s = [7] then 5 else exampleWidth s)
       (\<lambda>d. if d = ''t0'' then [] else exampleClock d)
       (\<lambda>col t. if col = ''#000000'' then [] else trueColourChalk col t)
       exampleMessages [''tool''] (Some 20)"
proof (rule preview_format_determined_by_inputs_and_libraries)
  fix m c
  assume "Some m \<in> set exampleMessages" "c \<in> set (msg_text m)"
  then have "c \<noteq> 7"
    by (auto simp: exampleMessages_def ustr_def)
  then show "exampleWidth [c] = (if [c] = [7] then 5 else exampleWidth [c])" by simp
next
  fix m d
  assume "Some m \<in> set exampleMessages" "timestamp m = Some d"
  then have "d \<noteq> ''t0''"
    by (auto simp: exampleMessages_def)
  then show "exampleClock d = (if d = ''t0'' then [] else exampleClock d)" by simp
qed (simp_all add: THEME_gray_def THEME_green_def THEME_orange_def)

text \<open>
  C8 as stated fails.  The same message list, hidden roles and wrap width are formatted
  twice, once with the chalk instance at colour level 0 and once at level 3: the first
  result begins with the bar, the second with the escape character of a colour sequence.
\<close>

theorem preview_format_colour_level_counterexample:
  "hd (buildDialogPreviewBlocks exampleWidth exampleClock plainChalk exampleMessages [''tool''] (Some 20))
     = 9475
   \<and> hd (buildDialogPreviewBlocks exampleWidth exampleClock trueColourChalk exampleMessages [''tool'']
           (Some 20)) = 27
   \<and> buildDialogPreviewBlocks exampleWidth exampleClock plainChalk exampleMessages [''tool''] (Some 20)
       \<noteq> buildDialogPreviewBlocks exampleWidth exampleClock trueColourChalk exampleMessages [''tool'']
           (Some 20)"
proof -
  have items: "dialogItems exampleMessages [''tool''] =
     [\<lparr>it_role = ''user'', it_text = ustr ''hello'' @ [10] @ ustr ''world'', it_timestamp = None\<rparr>,
      \<lparr>it_role = ''assistant'',
       it_text = [20013, 20013, 20013, 20013, 20013, 20013, 20013, 20013, 20013, 20013, 20013, 20013],
       it_timestamp = Some ''t2''\<rparr>]"
    by (simp add: dialogItems_def selectRecentDialogMessages_def exampleMessages_def safeString_def
        ustr_def)
  have join: "joinLines (l # ls) = l @ 10 # joinLines ls" if "ls \<noteq> []" for l ls
    using that by (cases ls) simp_all
  have first: "\<exists>rest. buildDialogPreviewBlocks exampleWidth exampleClock paint exampleMessages
                 [''tool''] (Some 20) = paint THEME_orange [9475] @ 32 # rest" for paint
    by (simp add: buildDialogPreviewBlocks_def formatPreviewBlocks_def previewLines_def items
        itemLines_def Let_def exampleWidth_facts(1) join)
  have plain: "hd (buildDialogPreviewBlocks exampleWidth exampleClock plainChalk exampleMessages
                 [''tool''] (Some 20)) = 9475"
    using first [of plainChalk] by (auto simp: plainChalk_def)
  have coloured: "hd (buildDialogPreviewBlocks exampleWidth exampleClock trueColourChalk exampleMessages
                 [''tool''] (Some 20)) = 27"
    using first [of trueColourChalk] by (auto simp: trueColourChalk_theme)
  from plain coloured show ?thesis by auto
qed

text \<open>
  C10.  For an empty item list \<open>formatPreviewBlocks\<close> pushes no line and returns the
  empty string, whatever the colouring and the wrap width.
\<close>

theorem formatPreviewBlocks_empty:
  "previewLines sw fmt chalkLib wrapWidth [] = []
   \<and> formatPreviewBlocks sw fmt chalkLib wrapWidth [] = []"
  by (simp add: previewLines_def formatPreviewBlocks_def)

section \<open>Properties of the picker\<close>

subsection \<open>Key delivery\<close>

text \<open>With no overlay open a key runs the screen handler alone.  While the delete
  confirmation is open, the flag \<open>modalActive\<close> makes every screen handler but the one for
  \<open>c\<close> return at once, so that the key is the dialog's.\<close>

lemma dispatch_browsing:
  "\<not> screenDestroyed s \<Longrightarrow> overlays s = [] \<Longrightarrow> dispatch onScreen onOverlay E k s = onScreen k s"
  by (cases "onScreen k s") (simp_all add: dispatch_def grabbing_def bindE_def)

lemma modal_flag_blocks_screen_keys:
  "modalActive s \<Longrightarrow> k \<noteq> KeyC \<Longrightarrow> screenKey E k s = Inr s"
  by (cases k)
     (simp_all add: navKey_def leftKey_def rightKey_def toggleFullView_def startNewKey_def
       workspaceKey_def quitKey_def resumeKey_def)

lemma dispatch_confirm:
  assumes "\<not> screenDestroyed s" "modalActive s" "k \<noteq> KeyC"
    and "overlays s = ConfirmDelete ident f b # others"
  shows "dispatch (screenKey E) (overlayKey E) E k s = Inr (overlayKey E k s)"
  using assms by (simp add: dispatch_def grabbing_def bindE_def modal_flag_blocks_screen_keys)

lemma sameControl_refl: "sameControl s s"
  by (simp add: sameControl_def)

lemma sameControl_trans: "sameControl s t \<Longrightarrow> sameControl t u \<Longrightarrow> sameControl s u"
  by (simp add: sameControl_def)

lemma updateItemBox_eq:
  "updateItemBox i s =
     s\<lparr>cacheReads := cacheReads s @ (case itemAt (pageItems s) i of None \<Rightarrow> [] | Some f \<Rightarrow> itemReads f)\<rparr>"
  by (simp add: updateItemBox_def renderItemContent_def logRead_def itemReads_def split: option.splits)

lemma fold_itemReads:
  "fold (\<lambda>f t. renderItemContent f (logRead (MetaRead (path f)) t)) fs s =
     s\<lparr>cacheReads := cacheReads s @ concat (map itemReads fs)\<rparr>"
  by (induction fs arbitrary: s) (simp_all add: renderItemContent_def logRead_def itemReads_def)

lemma buildItemBoxes_eq:
  "buildItemBoxes s = s\<lparr>cacheReads := cacheReads s @ concat (map itemReads (pageItems s))\<rparr>"
  by (simp add: buildItemBoxes_def fold_itemReads)

lemma sameControl_updateItemBox: "sameControl s (updateItemBox i s)"
  by (simp add: updateItemBox_eq sameControl_def)

lemma sameControl_loadSummary: "sameControl s (loadSummary E i s)"
  by (simp add: loadSummary_def updateItemBox_eq logRead_def sameControl_def Let_def
      split: option.splits sum.splits)

lemma loadMeta_ok:
  assumes "0 \<le> i" "i < int (length (pageItems s))"
  shows "\<exists>t. loadMeta E i s = Inr t \<and> sameControl s t"
  using assms
  by (simp add: loadMeta_def itemAt_def updateItemBox_eq logRead_def sameControl_def Let_def
      split: option.splits)

lemma sameControl_updatePreview: "sameControl s (updatePreviewForIndex E i s)"
  by (simp add: updatePreviewForIndex_def updateItemBox_eq logRead_def sameControl_def Let_def
      split: option.splits sum.splits)

lemma navTarget_range:
  assumes "0 \<le> sel" "sel < n"
    and "k \<in> {KeyUp, KeyDown, KeyPageUp, KeyPageDown, KeyHome, KeyEnd}"
  shows "0 \<le> navTarget k sel n \<and> navTarget k sel n < n"
  using assms by auto

lemma navKey_result:
  assumes "\<not> modalActive s"
    and "0 \<le> navTarget k (selectedIndex s) (int (length (pageItems s)))"
    and "navTarget k (selectedIndex s) (int (length (pageItems s))) < int (length (pageItems s))"
  shows "\<exists>t. navKey E k s = Inr t \<and>
             sameControl (s\<lparr>selectedIndex := navTarget k (selectedIndex s) (int (length (pageItems s)))\<rparr>) t"
proof -
  define n where "n = int (length (pageItems s))"
  define sel where "sel = navTarget k (selectedIndex s) n"
  define s1 where "s1 = setSelectedIndex sel s"
  define s2 where "s2 = updatePreviewForIndex E sel s1"
  have s1: "s1 = s\<lparr>selectedIndex := sel\<rparr>"
    using assms(2,3) by (simp add: s1_def setSelectedIndex_def sel_def n_def)
  have c2: "sameControl s1 s2"
    unfolding s2_def by (rule sameControl_updatePreview)
  have len: "pageItems t = pageItems s" if "sameControl s1 t" for t
    using that by (simp add: sameControl_def s1)
  have range: "0 \<le> sel" "sel < n" using assms(2,3) by (simp_all add: sel_def n_def)
  obtain s3 where s3: "loadMeta E sel s2 = Inr s3" "sameControl s2 s3"
    using loadMeta_ok [of sel s2 E] range len [OF c2] by (auto simp: n_def)
  define s4 where "s4 = loadSummary E sel s3"
  have c4: "sameControl s1 s4"
    unfolding s4_def using c2 s3(2) sameControl_loadSummary sameControl_trans by blast
  obtain s5 where s5: "(if sel + 1 < n then loadMeta E (sel + 1) s4 else Inr s4) = Inr s5"
    "sameControl s4 s5"
  proof (cases "sel + 1 < n")
    case True
    then show ?thesis
      using loadMeta_ok [of "sel + 1" s4 E] range len [OF c4] that by (auto simp: n_def)
  next
    case False
    then show ?thesis using that sameControl_refl by simp
  qed
  have c5: "sameControl s1 s5" using c4 s5(2) sameControl_trans by blast
  obtain s6 where s6: "(if sel - 1 \<ge> 0 then loadMeta E (sel - 1) s5 else Inr s5) = Inr s6"
    "sameControl s5 s6"
  proof (cases "sel - 1 \<ge> 0")
    case True
    then show ?thesis
      using loadMeta_ok [of "sel - 1" s5 E] range len [OF c5] that by (auto simp: n_def)
  next
    case False
    then show ?thesis using that sameControl_refl by simp
  qed
  have c6: "sameControl s1 s6" using c5 s6(2) sameControl_trans by blast
  define s7 where "s7 = (if sel + 1 < n then loadSummary E (sel + 1) s6 else s6)"
  define s8 where "s8 = (if sel - 1 \<ge> 0 then loadSummary E (sel - 1) s7 else s7)"
  have c7: "sameControl s1 s7"
    unfolding s7_def using c6 sameControl_loadSummary sameControl_trans by (cases "sel + 1 < n") auto
  have c8: "sameControl s1 s8"
    unfolding s8_def using c7 sameControl_loadSummary sameControl_trans by (cases "sel - 1 \<ge> 0") auto
  have "navKey E k s = Inr s8"
    by (simp only: navKey_def Let_def assms(1) if_False n_def [symmetric] sel_def [symmetric]
        s1_def [symmetric] s2_def [symmetric] s3(1) bindE_def sum.case s4_def [symmetric]
        s5(1) s6(1) s7_def [symmetric] s8_def [symmetric])
  with c8 s1 show ?thesis by (auto simp: sel_def n_def)
qed


lemma fold_updateItemBox:
  "fold (\<lambda>i. updateItemBox (int i)) js t =
     t\<lparr>cacheReads := cacheReads t @
          concat (map (\<lambda>i. case itemAt (pageItems t) (int i) of None \<Rightarrow> [] | Some f \<Rightarrow> itemReads f) js)\<rparr>"
  by (induction js arbitrary: t) (simp_all add: updateItemBox_eq)

lemma applyLayout_eq:
  "applyLayout E s =
     s\<lparr>totalW := (if screenWidth s \<noteq> 0 then screenWidth s else totalW s),
       leftW := (if fullView s then leftW s
                 else max 30 (floorScaled E (if screenWidth s \<noteq> 0 then screenWidth s else totalW s))),
       cacheReads := cacheReads s @
          concat (map (\<lambda>i. case itemAt (pageItems s) (int i) of None \<Rightarrow> [] | Some f \<Rightarrow> itemReads f)
                    [0..<length (pageItems s)])\<rparr>"
  by (simp add: applyLayout_def Let_def fold_updateItemBox)

lemma jsSlice_page:
  "0 \<le> start \<Longrightarrow>
   jsSlice xs start (min (int (length xs)) (start + ITEMS_PER_PAGE)) = take 30 (drop (nat start) xs)"
  by (auto simp: jsSlice_def Let_def ITEMS_PER_PAGE_def min_def)

lemma updatePageItems_eq:
  "0 \<le> currentPage s \<Longrightarrow>
   updatePageItems s =
     s\<lparr>pageItems := take 30 (drop (nat (currentPage s * 30)) (visibleFiles s)),
       selectedIndex := 0,
       cacheReads := cacheReads s @
          concat (map itemReads (take 30 (drop (nat (currentPage s * 30)) (visibleFiles s))))\<rparr>"
  using jsSlice_page [of "currentPage s * ITEMS_PER_PAGE" "visibleFiles s"]
  by (simp add: updatePageItems_def Let_def buildItemBoxes_eq ITEMS_PER_PAGE_def)

lemma pickSession_start:
  assumes "files \<noteq> []"
  shows "visibleFiles (pickSessionSplitTUI E files w) = files"
    "currentPage (pickSessionSplitTUI E files w) = 0"
    "pageItems (pickSessionSplitTUI E files w) = take 30 files"
    "selectedIndex (pickSessionSplitTUI E files w) = 0"
    "\<not> fullView (pickSessionSplitTUI E files w)"
    "\<not> modalActive (pickSessionSplitTUI E files w)"
    "\<not> destroyed (pickSessionSplitTUI E files w)"
    "\<not> screenDestroyed (pickSessionSplitTUI E files w)"
    "overlays (pickSessionSplitTUI E files w) = []"
    "resolved (pickSessionSplitTUI E files w) = None"
    "metaWorkers (pickSessionSplitTUI E files w) = 8"
    "sumWorkers (pickSessionSplitTUI E files w) = 3"
    "idxLoad (pickSessionSplitTUI E files w) = 0"
    "idxSum (pickSessionSplitTUI E files w) = 0"
    "screenWidth (pickSessionSplitTUI E files w) = w"
    "editedArgs (pickSessionSplitTUI E files w) = []"
    "pending (pickSessionSplitTUI E files w) = []"
proof -
  define s1 where "s1 = updatePageItems (initialPicker E files w)"
  define s2 where "s2 = s1\<lparr>idxLoad := 0, metaWorkers := 8, idxSum := 0, sumWorkers := 3\<rparr>"
  define s3 where "s3 = setSelectedIndex 0 s2"
  define s4 where "s4 = updatePreviewForIndex E 0 s3"
  have s1: "s1 = (initialPicker E files w)\<lparr>pageItems := take 30 files, selectedIndex := 0,
      cacheReads := concat (map itemReads (take 30 files))\<rparr>"
    unfolding s1_def by (subst updatePageItems_eq) (simp_all add: initialPicker_def)
  have s3: "s3 = s2"
    by (simp add: s3_def setSelectedIndex_def s2_def s1)
  have c4: "sameControl s2 s4"
    unfolding s4_def s3 by (rule sameControl_updatePreview)
  have run: "pickSessionSplitTUI E files w = applyLayout E s4"
    using assms by (simp add: pickSessionSplitTUI_def Let_def s1_def s2_def s3_def s4_def)
  show "visibleFiles (pickSessionSplitTUI E files w) = files"
    "currentPage (pickSessionSplitTUI E files w) = 0"
    "pageItems (pickSessionSplitTUI E files w) = take 30 files"
    "selectedIndex (pickSessionSplitTUI E files w) = 0"
    "\<not> fullView (pickSessionSplitTUI E files w)"
    "\<not> modalActive (pickSessionSplitTUI E files w)"
    "\<not> destroyed (pickSessionSplitTUI E files w)"
    "\<not> screenDestroyed (pickSessionSplitTUI E files w)"
    "overlays (pickSessionSplitTUI E files w) = []"
    "resolved (pickSessionSplitTUI E files w) = None"
    "metaWorkers (pickSessionSplitTUI E files w) = 8"
    "sumWorkers (pickSessionSplitTUI E files w) = 3"
    "idxLoad (pickSessionSplitTUI E files w) = 0"
    "idxSum (pickSessionSplitTUI E files w) = 0"
    "screenWidth (pickSessionSplitTUI E files w) = w"
    "editedArgs (pickSessionSplitTUI E files w) = []"
    "pending (pickSessionSplitTUI E files w) = []"
    using c4 by (simp_all add: run applyLayout_eq sameControl_def s2_def s1 initialPicker_def)
qed

lemma repeatDown:
  assumes "\<not> modalActive s" "0 \<le> selectedIndex s" "selectedIndex s < int (length (pageItems s))"
  shows "\<exists>u. repeatKey E KeyDown n s = Inr u \<and> pageItems u = pageItems s \<and>
             selectedIndex u = min (selectedIndex s + int n) (int (length (pageItems s)) - 1)"
  using assms
proof (induction n arbitrary: s)
  case 0
  then show ?case by simp
next
  case (Suc n)
  define sel where "sel = navTarget KeyDown (selectedIndex s) (int (length (pageItems s)))"
  have range: "0 \<le> sel" "sel < int (length (pageItems s))"
    using Suc.prems by (auto simp: sel_def)
  from navKey_result [of s KeyDown E] Suc.prems(1) range
  obtain t where t: "navKey E KeyDown s = Inr t" "sameControl (s\<lparr>selectedIndex := sel\<rparr>) t"
    by (auto simp: sel_def)
  have tf: "\<not> modalActive t" "pageItems t = pageItems s" "selectedIndex t = sel"
    using t(2) Suc.prems(1) by (simp_all add: sameControl_def)
  from Suc.IH [of t] tf range
  obtain u where u: "repeatKey E KeyDown n t = Inr u" "pageItems u = pageItems t"
    "selectedIndex u = min (selectedIndex t + int n) (int (length (pageItems t)) - 1)"
    by auto
  have "repeatKey E KeyDown (Suc n) s = Inr u"
    using t(1) u(1) by (simp add: bindE_def)
  moreover have "selectedIndex u = min (selectedIndex s + int (Suc n)) (int (length (pageItems s)) - 1)"
    using u(3) tf Suc.prems(2,3) by (simp add: sel_def)
  ultimately show ?case using u(2) tf(2) by simp
qed

text \<open>
  C1.  In the Browsing state (no modal flag) with a non-empty page and the selection inside
  it, each of the six navigation handlers returns normally, leaves the page as it is and
  puts the selection at the clamped target, which is again inside the page; pressing
  \<open>down\<close> any number of times ends at \<open>min (selectedIndex + n) (length - 1)\<close>: past
  the last item it stays on the last index, it never wraps and never throws.
\<close>

theorem nav_selection_stays_in_page:
  assumes "\<not> modalActive s" and "pageItems s \<noteq> []"
    and "0 \<le> selectedIndex s" and "selectedIndex s < int (length (pageItems s))"
    and "k \<in> {KeyUp, KeyDown, KeyPageUp, KeyPageDown, KeyHome, KeyEnd}"
  shows "(\<exists>t. screenKey E k s = Inr t \<and> pageItems t = pageItems s \<and>
              selectedIndex t = navTarget k (selectedIndex s) (int (length (pageItems s))) \<and>
              0 \<le> selectedIndex t \<and> selectedIndex t < int (length (pageItems t)))
       \<and> (\<exists>u. repeatKey E KeyDown n s = Inr u \<and> pageItems u = pageItems s \<and>
              selectedIndex u = min (selectedIndex s + int n) (int (length (pageItems s)) - 1))"
proof
  define sel where "sel = navTarget k (selectedIndex s) (int (length (pageItems s)))"
  have range: "0 \<le> sel \<and> sel < int (length (pageItems s))"
    unfolding sel_def by (rule navTarget_range [OF assms(3,4,5)])
  from navKey_result [of s k E] assms(1) range
  obtain t where t: "navKey E k s = Inr t" "sameControl (s\<lparr>selectedIndex := sel\<rparr>) t"
    by (auto simp: sel_def)
  have "screenKey E k s = navKey E k s"
    using assms(5) by auto
  with t range show "\<exists>t. screenKey E k s = Inr t \<and> pageItems t = pageItems s \<and>
              selectedIndex t = navTarget k (selectedIndex s) (int (length (pageItems s))) \<and>
              0 \<le> selectedIndex t \<and> selectedIndex t < int (length (pageItems t))"
    by (auto simp: sameControl_def sel_def)
next
  show "\<exists>u. repeatKey E KeyDown n s = Inr u \<and> pageItems u = pageItems s \<and>
              selectedIndex u = min (selectedIndex s + int n) (int (length (pageItems s)) - 1)"
    by (rule repeatDown [OF assms(1,3,4)])
qed

theorem nav_selection_stays_in_page_witness:
  "(\<exists>t. screenKey exampleEnv KeyPageDown startABC = Inr t \<and> selectedIndex t = 2)
   \<and> (\<exists>u. repeatKey exampleEnv KeyDown 7 startABC = Inr u \<and> selectedIndex u = 2
           \<and> pageItems u = [fileA, fileB, fileC])"
proof -
  have start: "\<not> modalActive startABC" "pageItems startABC = [fileA, fileB, fileC]"
    "selectedIndex startABC = 0"
    by (simp_all add: startABC_def pickSession_start)
  have "KeyPageDown \<in> {KeyUp, KeyDown, KeyPageUp, KeyPageDown, KeyHome, KeyEnd}" by simp
  from nav_selection_stays_in_page [OF start(1) _ _ _ this, of exampleEnv 7]
  have "(\<exists>t. screenKey exampleEnv KeyPageDown startABC = Inr t \<and> pageItems t = [fileA, fileB, fileC] \<and>
              selectedIndex t = 2 \<and> 0 \<le> selectedIndex t \<and> selectedIndex t < int (length (pageItems t)))
       \<and> (\<exists>u. repeatKey exampleEnv KeyDown 7 startABC = Inr u \<and> pageItems u = [fileA, fileB, fileC] \<and>
              selectedIndex u = 2)"
    by (simp add: start del: screenKey.simps)
  then show ?thesis by blast
qed

subsection \<open>Cache keys\<close>

lemma showNat_digits: "set (showNat n) \<subseteq> set ''0123456789''"
proof (induction n rule: showNat.induct)
  case (1 n)
  have digit: "''0123456789'' ! d \<in> set ''0123456789''" if "d < 10" for d
    using that by (intro nth_mem) simp
  show ?case
  proof (cases "n < 10")
    case True
    then show ?thesis
      using digit [of n] by (subst showNat.simps) simp
  next
    case False
    then have "set (showNat (n div 10)) \<subseteq> set ''0123456789''"
      using "1.IH" by simp
    moreover have "''0123456789'' ! (n mod 10) \<in> set ''0123456789''"
      by (rule digit) simp
    ultimately show ?thesis
      using False by (subst showNat.simps) simp
  qed
qed

lemma showInt_no_colon: "CHR '':'' \<notin> set (showInt w)"
  using showNat_digits [of "nat w"] showNat_digits [of "nat (- w)"]
  by (auto simp: showInt_def)

lemma append_sep_unique:
  assumes "a @ c # b = a' @ c # b'" "c \<notin> set a" "c \<notin> set a'"
  shows "a = a' \<and> b = b'"
  using assms
proof (induction a arbitrary: a')
  case Nil
  then show ?case by (cases a') auto
next
  case (Cons x a)
  then show ?case by (cases a') auto
qed

lemma previewKey_inj:
  assumes "previewKey p w = previewKey p' w'"
  shows "p = p'"
proof -
  from assms have "rev (p @ ''::'' @ showInt w) = rev (p' @ ''::'' @ showInt w')"
    by (simp only: previewKey_def)
  then have "rev (showInt w) @ CHR '':'' # (CHR '':'' # rev p)
                 = rev (showInt w') @ CHR '':'' # (CHR '':'' # rev p')"
    by simp
  then have "CHR '':'' # rev p = CHR '':'' # rev p'"
    using append_sep_unique [of "rev (showInt w)" "CHR '':''" _ "rev (showInt w')"]
      showInt_no_colon [of w] showInt_no_colon [of w'] by auto
  then show ?thesis by simp
qed

lemma previewKey_prefix: "prefix (p @ ''::'') (previewKey p w)"
  by (simp add: previewKey_def)


subsection \<open>Deleting the selected file\<close>

lemma updatePreview_none: "itemAt (pageItems s) i = None \<Longrightarrow> updatePreviewForIndex E i s = s"
  by (simp add: updatePreviewForIndex_def)

lemma getPreviewInnerWidth_logRead: "getPreviewInnerWidth (logRead r s) = getPreviewInnerWidth s"
  by (simp add: getPreviewInnerWidth_def logRead_def Let_def)

lemma updatePreview_caches:
  assumes "itemAt (pageItems s) i = Some g"
  shows "metaCache (updatePreviewForIndex E i s) = metaCache s"
    and "p \<noteq> path g \<Longrightarrow> msgSummaryCache (updatePreviewForIndex E i s) p = msgSummaryCache s p"
    and "key \<noteq> previewKey (path g) (getPreviewInnerWidth s) \<Longrightarrow>
         previewCache (updatePreviewForIndex E i s) key = previewCache s key"
  using assms
  by (simp_all add: updatePreviewForIndex_def updateItemBox_eq getPreviewInnerWidth_logRead Let_def
      split: option.splits sum.splits)
     (simp_all add: logRead_def)

lemma page_start_inside:
  "0 < (n::int) \<Longrightarrow> 0 \<le> cp \<Longrightarrow> cp < max 1 ((n + 30 - 1) div 30) \<Longrightarrow> cp * 30 < n"
  unfolding max_def by (cases "1 \<le> (n + 30 - 1) div 30") (simp_all; presburger)+

lemma page_not_empty:
  assumes "xs \<noteq> []" "0 \<le> cp" "cp < max 1 (ceilPages (length xs))"
  shows "take 30 (drop (nat (cp * 30)) xs) \<noteq> []"
proof -
  have pos: "0 < int (length xs)" using assms(1) by simp
  have "cp * 30 < int (length xs)"
    using assms(3) by (intro page_start_inside [OF pos assms(2)]) (simp add: ceilPages_def ITEMS_PER_PAGE_def)
  then show ?thesis using assms(2) by (simp add: nat_less_iff)
qed

lemma afterDelete_nonempty: "visibleFiles s \<noteq> [] \<Longrightarrow> afterDelete s = s"
  by (simp add: afterDelete_def)

lemma deleteConfirmed_no: "visibleFiles s \<noteq> [] \<Longrightarrow> deleteConfirmed E f False s = s"
  by (simp add: deleteConfirmed_def afterDelete_def)

lemma deleteConfirmed_failed:
  "unlink E (path f) = Some msg \<Longrightarrow>
   deleteConfirmed E f True s = s\<lparr>overlays := DeleteFailed msg # overlays s\<rparr>"
  by (simp add: deleteConfirmed_def)

lemma deleteConfirmed_success:
  assumes ok: "unlink E (path f) = None"
    and rest: "filter (\<lambda>it. path it \<noteq> path f) (visibleFiles s) \<noteq> []"
    and page: "0 \<le> currentPage s"
  shows "metaCache (deleteConfirmed E f True s) (path f) = None"
    and "msgSummaryCache (deleteConfirmed E f True s) (path f) = None"
    and "previewCache (deleteConfirmed E f True s) (previewKey (path f) w) = None"
    and "visibleFiles (deleteConfirmed E f True s) = filter (\<lambda>it. path it \<noteq> path f) (visibleFiles s)"
    and "currentPage (deleteConfirmed E f True s) =
           (if currentPage s \<ge> max 1 (ceilPages (length (filter (\<lambda>it. path it \<noteq> path f) (visibleFiles s))))
            then max 1 (ceilPages (length (filter (\<lambda>it. path it \<noteq> path f) (visibleFiles s)))) - 1
            else currentPage s)"
    and "pageItems (deleteConfirmed E f True s) =
           take 30 (drop (nat (currentPage (deleteConfirmed E f True s) * 30))
                      (visibleFiles (deleteConfirmed E f True s)))"
    and "pageItems (deleteConfirmed E f True s) \<noteq> []"
    and "selectedIndex (deleteConfirmed E f True s) =
           max 0 (min (selectedIndex s) (int (length (pageItems (deleteConfirmed E f True s))) - 1))"
    and "modalActive (deleteConfirmed E f True s) = modalActive s"
    and "overlays (deleteConfirmed E f True s) = overlays s"
    and "resolved (deleteConfirmed E f True s) = resolved s"
    and "destroyed (deleteConfirmed E f True s) = destroyed s"
    and "screenDestroyed (deleteConfirmed E f True s) = screenDestroyed s"
    and "fullView (deleteConfirmed E f True s) = fullView s"
    and "editedArgs (deleteConfirmed E f True s) = editedArgs s"
proof -
  define vf where "vf = filter (\<lambda>it. path it \<noteq> path f) (visibleFiles s)"
  define s1 where "s1 = s\<lparr>metaCache := (metaCache s)(path f := None),
                        msgSummaryCache := (msgSummaryCache s)(path f := None),
                        previewCache := (\<lambda>key. if prefix (path f @ ''::'') key then None
                                               else previewCache s key)\<rparr>"
  define s2 where "s2 = s1\<lparr>visibleFiles := filter (\<lambda>it. path it \<noteq> path f) (visibleFiles s1)\<rparr>"
  define totalPages where "totalPages = max 1 (ceilPages (length (visibleFiles s2)))"
  define s3 where "s3 = (if currentPage s2 \<ge> totalPages then s2\<lparr>currentPage := totalPages - 1\<rparr> else s2)"
  define s4 where "s4 = updatePageItems s3"
  define newSel where "newSel = max 0 (min (selectedIndex s3) (int (length (pageItems s4)) - 1))"
  define s5 where "s5 = setSelectedIndex newSel s4"
  define s6 where "s6 = updatePreviewForIndex E newSel s5"
  define cp where "cp = (if currentPage s \<ge> totalPages then totalPages - 1 else currentPage s)"
  have vf2: "visibleFiles s2 = vf"
    by (simp add: s2_def s1_def vf_def)
  have ne: "(visibleFiles s2 = []) = False"
    using rest by (simp add: vf2 vf_def)
  have tp: "1 \<le> totalPages" by (simp add: totalPages_def)
  have cp: "0 \<le> cp" "cp < totalPages"
    using page tp by (auto simp: cp_def)
  have s3: "s3 = s2\<lparr>currentPage := cp\<rparr>"
    by (simp add: s3_def cp_def s2_def s1_def)
  have s4: "s4 = s3\<lparr>pageItems := take 30 (drop (nat (cp * 30)) vf), selectedIndex := 0,
              cacheReads := cacheReads s3 @ concat (map itemReads (take 30 (drop (nat (cp * 30)) vf)))\<rparr>"
    unfolding s4_def using cp(1) vf2 by (subst updatePageItems_eq) (simp_all add: s3)
  have items: "pageItems s4 = take 30 (drop (nat (cp * 30)) vf)"
    by (simp add: s4)
  have nonempty: "pageItems s4 \<noteq> []"
    unfolding items using rest cp by (intro page_not_empty) (simp_all add: vf_def totalPages_def vf2)
  have prev: "selectedIndex s3 = selectedIndex s"
    by (simp add: s3 s2_def s1_def)
  have sel: "0 \<le> newSel" "newSel < int (length (pageItems s4))"
    using nonempty by (auto simp: newSel_def)
  have s5: "s5 = s4\<lparr>selectedIndex := newSel\<rparr>"
    using sel by (simp add: s5_def setSelectedIndex_def)
  obtain g where g: "itemAt (pageItems s5) newSel = Some g" "g \<in> set (pageItems s4)"
    using sel by (auto simp: itemAt_def s5)
  have "g \<in> set vf"
    using g(2) unfolding items by (meson in_set_dropD in_set_takeD)
  then have other: "path g \<noteq> path f"
    by (simp add: vf_def)
  have c6: "sameControl s5 s6"
    unfolding s6_def by (rule sameControl_updatePreview)
  have vf6: "visibleFiles s6 = vf"
    using c6 by (simp add: sameControl_def s5 s4 s3 vf2)
  have "deleteConfirmed E f True s = afterDelete s6"
    by (simp only: deleteConfirmed_def Let_def not_True_eq_False if_False ok option.case
        s1_def [symmetric] s2_def [symmetric] ne totalPages_def [symmetric] s3_def [symmetric]
        s4_def [symmetric] newSel_def [symmetric] s5_def [symmetric] s6_def [symmetric])
  then have result: "deleteConfirmed E f True s = s6"
    using rest by (simp add: afterDelete_def vf6 vf_def)
  show "metaCache (deleteConfirmed E f True s) (path f) = None"
    unfolding result s6_def using updatePreview_caches(1) [OF g(1)]
    by (simp add: s5 s4 s3 s2_def s1_def)
  show "msgSummaryCache (deleteConfirmed E f True s) (path f) = None"
    unfolding result s6_def using updatePreview_caches(2) [OF g(1), of "path f" E] other
    by (simp add: s5 s4 s3 s2_def s1_def)
  show "previewCache (deleteConfirmed E f True s) (previewKey (path f) w) = None"
  proof -
    have "previewKey (path f) w \<noteq> previewKey (path g) (getPreviewInnerWidth s5)"
      using previewKey_inj other by metis
    from updatePreview_caches(3) [OF g(1) this]
    show ?thesis
      unfolding result s6_def by (simp add: s5 s4 s3 s2_def s1_def previewKey_prefix)
  qed
  have frame: "visibleFiles s6 = vf" "currentPage s6 = cp" "pageItems s6 = pageItems s4"
    "selectedIndex s6 = newSel" "modalActive s6 = modalActive s" "overlays s6 = overlays s"
    "resolved s6 = resolved s" "destroyed s6 = destroyed s" "screenDestroyed s6 = screenDestroyed s"
    "fullView s6 = fullView s" "editedArgs s6 = editedArgs s"
    using c6 by (simp_all add: sameControl_def s5 s4 s3 s2_def s1_def vf_def)
  show "visibleFiles (deleteConfirmed E f True s) = filter (\<lambda>it. path it \<noteq> path f) (visibleFiles s)"
    by (simp add: result frame vf_def)
  show "currentPage (deleteConfirmed E f True s) =
           (if currentPage s \<ge> max 1 (ceilPages (length (filter (\<lambda>it. path it \<noteq> path f) (visibleFiles s))))
            then max 1 (ceilPages (length (filter (\<lambda>it. path it \<noteq> path f) (visibleFiles s)))) - 1
            else currentPage s)"
    by (simp add: result frame cp_def totalPages_def vf2 vf_def)
  show "pageItems (deleteConfirmed E f True s) =
           take 30 (drop (nat (currentPage (deleteConfirmed E f True s) * 30))
                      (visibleFiles (deleteConfirmed E f True s)))"
    by (simp add: result frame items)
  show "pageItems (deleteConfirmed E f True s) \<noteq> []"
    by (simp add: result frame nonempty)
  show "selectedIndex (deleteConfirmed E f True s) =
           max 0 (min (selectedIndex s) (int (length (pageItems (deleteConfirmed E f True s))) - 1))"
    by (simp add: result frame newSel_def prev)
  show "modalActive (deleteConfirmed E f True s) = modalActive s"
    "overlays (deleteConfirmed E f True s) = overlays s"
    "resolved (deleteConfirmed E f True s) = resolved s"
    "destroyed (deleteConfirmed E f True s) = destroyed s"
    "screenDestroyed (deleteConfirmed E f True s) = screenDestroyed s"
    "fullView (deleteConfirmed E f True s) = fullView s"
    "editedArgs (deleteConfirmed E f True s) = editedArgs s"
    by (simp_all add: result frame)
qed

lemma deleteSelectedFile_opens:
  assumes "selectedFile s = Some f"
  shows "\<exists>ident. overlays (deleteSelectedFile E s) = ConfirmDelete ident f 1 # overlays s"
    and "modalActive (deleteSelectedFile E s)"
    and "visibleFiles (deleteSelectedFile E s) = visibleFiles s"
    and "currentPage (deleteSelectedFile E s) = currentPage s"
    and "pageItems (deleteSelectedFile E s) = pageItems s"
    and "selectedIndex (deleteSelectedFile E s) = selectedIndex s"
    and "resolved (deleteSelectedFile E s) = resolved s"
    and "destroyed (deleteSelectedFile E s) = destroyed s"
    and "screenDestroyed (deleteSelectedFile E s) = screenDestroyed s"
    and "msgSummaryCache (deleteSelectedFile E s) = msgSummaryCache s"
    and "previewCache (deleteSelectedFile E s) = previewCache s"
    and "p \<noteq> path f \<Longrightarrow> metaCache (deleteSelectedFile E s) p = metaCache s p"
    and "metaCache s (path f) = Some m \<Longrightarrow> metaCache (deleteSelectedFile E s) = metaCache s"
  using assms
  by (simp_all add: deleteSelectedFile_def confirmDeleteDialog_def logRead_def Let_def
      split: option.splits)

lemma overlayKey_confirm:
  assumes "overlays s = ConfirmDelete ident f b # others"
  shows "overlayKey E KeyY s = deleteConfirmed E f True (s\<lparr>overlays := others, modalActive := False\<rparr>)"
    and "overlayKey E KeyN s = deleteConfirmed E f False (s\<lparr>overlays := others, modalActive := False\<rparr>)"
    and "overlayKey E KeyEscape s = deleteConfirmed E f False (s\<lparr>overlays := others, modalActive := False\<rparr>)"
    and "overlayKey E KeyEnter s = deleteConfirmed E f (b = 0) (s\<lparr>overlays := others, modalActive := False\<rparr>)"
    and "overlayKey E KeyLeft s = s\<lparr>overlays := ConfirmDelete ident f 0 # others\<rparr>"
    and "overlayKey E KeyRight s = s\<lparr>overlays := ConfirmDelete ident f 1 # others\<rparr>"
  using assms by (simp_all add: overlayKey_def finish_def)

text \<open>
  C2.  \<open>s\<close> is a state in which the confirmation for the file \<open>f\<close> is open.  When the
  answer is Yes, \<open>fs.unlink\<close> succeeds and a file with another path remains, the one
  handler run \<open>t\<close> has no entry for \<open>f\<close>'s path in the metadata cache, in the summary
  cache or, at any width, in the preview cache; \<open>visibleFiles\<close> has lost the file; the
  page is the slice of the current page and is not empty; and the selection is the old one
  clamped into the new page.  When the answer is No (\<open>u\<close>), the state is the one before
  the dialog: only the dialog is closed.
\<close>

theorem confirmed_delete_purges_and_clamps:
  assumes dialog: "overlays s = ConfirmDelete ident f b # others"
    and ok: "unlink E (path f) = None"
    and rest: "filter (\<lambda>it. path it \<noteq> path f) (visibleFiles s) \<noteq> []"
    and page: "0 \<le> currentPage s"
    and yes: "t = overlayKey E KeyY s"
    and no: "u = overlayKey E KeyN s"
  shows "metaCache t (path f) = None \<and> msgSummaryCache t (path f) = None
       \<and> (\<forall>w. previewCache t (previewKey (path f) w) = None)
       \<and> visibleFiles t = filter (\<lambda>it. path it \<noteq> path f) (visibleFiles s)
       \<and> pageItems t = take 30 (drop (nat (currentPage t * 30)) (visibleFiles t))
       \<and> pageItems t \<noteq> []
       \<and> selectedIndex t = max 0 (min (selectedIndex s) (int (length (pageItems t)) - 1))
       \<and> 0 \<le> selectedIndex t \<and> selectedIndex t < int (length (pageItems t))
       \<and> \<not> modalActive t \<and> overlays t = others \<and> destroyed t = destroyed s
       \<and> resolved t = resolved s
       \<and> u = s\<lparr>overlays := others, modalActive := False\<rparr>"
proof -
  define s0 where "s0 = s\<lparr>overlays := others, modalActive := False\<rparr>"
  have t: "t = deleteConfirmed E f True s0"
    unfolding yes s0_def by (rule overlayKey_confirm(1) [OF dialog])
  have rest0: "filter (\<lambda>it. path it \<noteq> path f) (visibleFiles s0) \<noteq> []" "0 \<le> currentPage s0"
    using rest page by (simp_all add: s0_def)
  note facts = deleteConfirmed_success [OF ok rest0, folded t]
  have nonempty: "pageItems t \<noteq> []" by (rule facts(7))
  have sel: "selectedIndex t = max 0 (min (selectedIndex s) (int (length (pageItems t)) - 1))"
    using facts(8) by (simp add: s0_def)
  have "visibleFiles s0 \<noteq> []" using rest0(1) by auto
  then have "u = s0"
    unfolding no overlayKey_confirm(2) [OF dialog] s0_def [symmetric] by (rule deleteConfirmed_no)
  moreover have "0 \<le> selectedIndex t \<and> selectedIndex t < int (length (pageItems t))"
    using nonempty unfolding sel by auto
  ultimately show ?thesis
  proof (intro conjI allI)
    show "metaCache t (path f) = None" by (rule facts(1))
    show "msgSummaryCache t (path f) = None" by (rule facts(2))
    show "previewCache t (previewKey (path f) w) = None" for w by (rule facts(3))
    show "visibleFiles t = filter (\<lambda>it. path it \<noteq> path f) (visibleFiles s)"
      using facts(4) by (simp add: s0_def)
    show "pageItems t = take 30 (drop (nat (currentPage t * 30)) (visibleFiles t))" by (rule facts(6))
    show "pageItems t \<noteq> []" by (rule nonempty)
    show "selectedIndex t = max 0 (min (selectedIndex s) (int (length (pageItems t)) - 1))" by (rule sel)
    show "\<not> modalActive t" using facts(9) by (simp add: s0_def)
    show "overlays t = others" using facts(10) by (simp add: s0_def)
    show "destroyed t = destroyed s" using facts(12) by (simp add: s0_def)
    show "resolved t = resolved s" using facts(11) by (simp add: s0_def)
    show "u = s\<lparr>overlays := others, modalActive := False\<rparr>" if "u = s0" using that by (simp add: s0_def)
  qed simp_all
qed


lemma scenario_dialog:
  "\<exists>ident. overlays dialogOnC = [ConfirmDelete ident fileC 1]"
  "visibleFiles dialogOnC = [fileA, fileB, fileC]"
  "pageItems dialogOnC = [fileA, fileB, fileC]"
  "currentPage dialogOnC = 0"
  "selectedIndex dialogOnC = 2"
  "modalActive dialogOnC"
  "resolved dialogOnC = None"
  "\<not> destroyed dialogOnC"
proof -
  have start: "\<not> modalActive startABC" "pageItems startABC = [fileA, fileB, fileC]"
    "selectedIndex startABC = 0" "\<not> screenDestroyed startABC" "visibleFiles startABC = [fileA, fileB, fileC]"
    "currentPage startABC = 0" "resolved startABC = None" "\<not> destroyed startABC"
    "overlays startABC = []"
    by (simp_all add: startABC_def pickSession_start)
  obtain t1 where t1: "navKey exampleEnv KeyDown startABC = Inr t1"
    "sameControl (startABC\<lparr>selectedIndex := 1\<rparr>) t1"
    using navKey_result [of startABC KeyDown exampleEnv] by (auto simp: start)
  have c1: "\<not> modalActive t1" "pageItems t1 = [fileA, fileB, fileC]" "selectedIndex t1 = 1"
    "\<not> screenDestroyed t1" "overlays t1 = []"
    using t1(2) by (simp_all add: sameControl_def start)
  obtain t2 where t2: "navKey exampleEnv KeyDown t1 = Inr t2"
    "sameControl (t1\<lparr>selectedIndex := 2\<rparr>) t2"
    using navKey_result [of t1 KeyDown exampleEnv] by (auto simp: c1)
  have c2: "\<not> modalActive t2" "pageItems t2 = [fileA, fileB, fileC]" "selectedIndex t2 = 2"
    "\<not> screenDestroyed t2" "visibleFiles t2 = [fileA, fileB, fileC]" "currentPage t2 = 0"
    "resolved t2 = None" "\<not> destroyed t2" "overlays t2 = []"
    using t1(2) t2(2) by (simp_all add: sameControl_def start)
  have sel: "selectedFile t2 = Some fileC"
    by (simp add: selectedFile_def itemAt_def c2)
  have "run exampleEnv [Key KeyDown, Key KeyDown, Key KeyD] startABC
          = Inr (deleteSelectedFile exampleEnv t2)"
    by (simp add: dispatch_browsing start c1 c2 t1(1) t2(1) bindE_def)
  then have d: "dialogOnC = deleteSelectedFile exampleEnv t2"
    by (simp add: dialogOnC_def)
  show "\<exists>ident. overlays dialogOnC = [ConfirmDelete ident fileC 1]"
    using deleteSelectedFile_opens(1) [OF sel, of exampleEnv] by (simp add: d c2)
  show "visibleFiles dialogOnC = [fileA, fileB, fileC]"
    "pageItems dialogOnC = [fileA, fileB, fileC]"
    "currentPage dialogOnC = 0"
    "selectedIndex dialogOnC = 2"
    "modalActive dialogOnC"
    "resolved dialogOnC = None"
    "\<not> destroyed dialogOnC"
    by (simp_all add: d deleteSelectedFile_opens [OF sel] c2)
qed

theorem confirmed_delete_purges_and_clamps_witness:
  "visibleFiles (overlayKey exampleEnv KeyY dialogOnC) = [fileA, fileB]
   \<and> pageItems (overlayKey exampleEnv KeyY dialogOnC) = [fileA, fileB]
   \<and> selectedIndex (overlayKey exampleEnv KeyY dialogOnC) = 1
   \<and> metaCache (overlayKey exampleEnv KeyY dialogOnC) ''C'' = None
   \<and> msgSummaryCache (overlayKey exampleEnv KeyY dialogOnC) ''C'' = None
   \<and> previewCache (overlayKey exampleEnv KeyY dialogOnC) (previewKey ''C'' 62) = None
   \<and> \<not> modalActive (overlayKey exampleEnv KeyY dialogOnC)
   \<and> visibleFiles (overlayKey exampleEnv KeyN dialogOnC) = [fileA, fileB, fileC]
   \<and> selectedIndex (overlayKey exampleEnv KeyN dialogOnC) = 2
   \<and> \<not> modalActive (overlayKey exampleEnv KeyN dialogOnC)"
proof -
  obtain ident where dialog: "overlays dialogOnC = ConfirmDelete ident fileC 1 # []"
    using scenario_dialog(1) by blast
  have ok: "unlink exampleEnv (path fileC) = None"
    by (simp add: exampleEnv_def)
  have rest: "filter (\<lambda>it. path it \<noteq> path fileC) (visibleFiles dialogOnC) \<noteq> []"
    by (simp add: scenario_dialog fileA_def fileB_def fileC_def)
  have page: "0 \<le> currentPage dialogOnC"
    by (simp add: scenario_dialog)
  note th = confirmed_delete_purges_and_clamps [OF dialog ok rest page refl refl]
  have vf: "visibleFiles (overlayKey exampleEnv KeyY dialogOnC) = [fileA, fileB]"
    using th by (simp add: scenario_dialog fileA_def fileB_def fileC_def)
  have cp: "currentPage (overlayKey exampleEnv KeyY dialogOnC) = 0"
    using deleteConfirmed_success(5) [OF ok, of "dialogOnC\<lparr>overlays := [], modalActive := False\<rparr>"]
    by (simp add: overlayKey_confirm(1) [OF dialog] scenario_dialog fileA_def fileB_def fileC_def
        ceilPages_def ITEMS_PER_PAGE_def)
  have items: "pageItems (overlayKey exampleEnv KeyY dialogOnC) = [fileA, fileB]"
    using th by (simp add: vf cp)
  show ?thesis
    using th by (simp add: vf items scenario_dialog fileC_def)
qed

lemma deleteConfirmed_last:
  assumes ok: "unlink E (path f) = None"
    and last: "filter (\<lambda>it. path it \<noteq> path f) (visibleFiles s) = []"
  shows "deleteConfirmed E f True s =
     resolve None (s\<lparr>metaCache := (metaCache s)(path f := None),
                      msgSummaryCache := (msgSummaryCache s)(path f := None),
                      previewCache := (\<lambda>key. if prefix (path f @ ''::'') key then None
                                             else previewCache s key),
                      visibleFiles := [], destroyed := True, screenDestroyed := True\<rparr>)"
  using ok last by (simp add: deleteConfirmed_def Let_def afterDelete_def destroyScreen_def)

subsection \<open>Layout\<close>

lemma getPreviewInnerWidth_frame:
  "getPreviewInnerWidth (s\<lparr>cacheReads := a\<rparr>) = getPreviewInnerWidth s"
  "getPreviewInnerWidth (s\<lparr>previewContent := b\<rparr>) = getPreviewInnerWidth s"
  "getPreviewInnerWidth (s\<lparr>msgSummaryCache := c\<rparr>) = getPreviewInnerWidth s"
  "getPreviewInnerWidth (s\<lparr>previewCache := d\<rparr>) = getPreviewInnerWidth s"
  "getPreviewInnerWidth (s\<lparr>metaCache := e\<rparr>) = getPreviewInnerWidth s"
  by (simp_all add: getPreviewInnerWidth_def Let_def)

lemma updatePreview_miss:
  assumes "itemAt (pageItems s) i = Some f"
    and "previewCache s (previewKey (path f) (getPreviewInnerWidth s)) = None"
    and "parseSessionFile E (path f) = Inr p"
    and "\<not> destroyed s"
  shows "previewContent (updatePreviewForIndex E i s) =
           buildDialogPreviewBlocks (stringWidth E) (dayjsFormat E) (chalkHex E) (messages p) (hide E)
             (Some (getPreviewInnerWidth s))"
    and "previewCache (updatePreviewForIndex E i s) (previewKey (path f) (getPreviewInnerWidth s)) =
           Some (buildDialogPreviewBlocks (stringWidth E) (dayjsFormat E) (chalkHex E) (messages p)
                   (hide E) (Some (getPreviewInnerWidth s)))"
  using assms
  by (simp_all add: updatePreviewForIndex_def updateItemBox_eq logRead_def Let_def
      getPreviewInnerWidth_frame)

lemma toggleFullView_eq:
  "\<not> modalActive s \<Longrightarrow>
   toggleFullView E s =
     s\<lparr>fullView := \<not> fullView s,
       totalW := (if screenWidth s \<noteq> 0 then screenWidth s else totalW s),
       leftW := (if \<not> fullView s then leftW s
                 else max 30 (floorScaled E (if screenWidth s \<noteq> 0 then screenWidth s else totalW s))),
       cacheReads := cacheReads s @
          concat (map (\<lambda>i. case itemAt (pageItems s) (int i) of None \<Rightarrow> [] | Some f \<Rightarrow> itemReads f)
                    [0..<length (pageItems s)])\<rparr>"
  by (simp add: toggleFullView_def applyLayout_eq)


lemma start_preview:
  assumes "parseSessionFile E (path f0) = Inr p"
  shows "previewContent (pickSessionSplitTUI E (f0 # others) w) =
           buildDialogPreviewBlocks (stringWidth E) (dayjsFormat E) (chalkHex E) (messages p) (hide E)
             (Some (getPreviewInnerWidth (initialPicker E (f0 # others) w)))"
    and "previewCache (pickSessionSplitTUI E (f0 # others) w) key =
           (if key = previewKey (path f0) (getPreviewInnerWidth (initialPicker E (f0 # others) w))
            then Some (buildDialogPreviewBlocks (stringWidth E) (dayjsFormat E) (chalkHex E) (messages p)
                         (hide E) (Some (getPreviewInnerWidth (initialPicker E (f0 # others) w))))
            else None)"
    and "metaCache (pickSessionSplitTUI E (f0 # others) w) = Map.empty"
    and "leftW (pickSessionSplitTUI E (f0 # others) w) = leftW (initialPicker E (f0 # others) w)"
proof -
  define files where "files = f0 # others"
  define s1 where "s1 = updatePageItems (initialPicker E files w)"
  define s2 where "s2 = s1\<lparr>idxLoad := 0, metaWorkers := 8, idxSum := 0, sumWorkers := 3\<rparr>"
  define s3 where "s3 = setSelectedIndex 0 s2"
  define s4 where "s4 = updatePreviewForIndex E 0 s3"
  define W where "W = getPreviewInnerWidth (initialPicker E files w)"
  have s1: "s1 = (initialPicker E files w)\<lparr>pageItems := take 30 files, selectedIndex := 0,
      cacheReads := concat (map itemReads (take 30 files))\<rparr>"
    unfolding s1_def by (subst updatePageItems_eq) (simp_all add: initialPicker_def)
  have s3: "s3 = s2"
    by (simp add: s3_def setSelectedIndex_def s2_def s1)
  have item: "itemAt (pageItems s2) 0 = Some f0"
    by (simp add: itemAt_def s2_def s1 files_def)
  have w2: "getPreviewInnerWidth s2 = W"
    by (simp add: getPreviewInnerWidth_def Let_def s2_def s1 W_def)
  have empty: "previewCache s2 = Map.empty" "metaCache s2 = Map.empty" "\<not> destroyed s2"
    by (simp_all add: s2_def s1 initialPicker_def)
  have run: "pickSessionSplitTUI E files w = applyLayout E s4"
    by (simp add: pickSessionSplitTUI_def Let_def s1_def s2_def s3_def s4_def files_def)
  have c4: "sameControl s2 s4"
    unfolding s4_def s3 by (rule sameControl_updatePreview)
  have content: "previewContent s4 =
      buildDialogPreviewBlocks (stringWidth E) (dayjsFormat E) (chalkHex E) (messages p) (hide E) (Some W)"
    unfolding s4_def s3 using updatePreview_miss(1) [OF item _ assms] empty by (simp add: w2)
  have hit: "previewCache s4 (previewKey (path f0) W) =
      Some (buildDialogPreviewBlocks (stringWidth E) (dayjsFormat E) (chalkHex E) (messages p) (hide E) (Some W))"
    unfolding s4_def s3 using updatePreview_miss(2) [OF item _ assms] empty by (simp add: w2)
  have other: "previewCache s4 key = None" if "key \<noteq> previewKey (path f0) W" for key
    unfolding s4_def s3 using updatePreview_caches(3) [OF item, of key E] that empty by (simp add: w2)
  have meta: "metaCache s4 = Map.empty"
    unfolding s4_def s3 using updatePreview_caches(1) [OF item, of E] empty by simp
  show "previewContent (pickSessionSplitTUI E (f0 # others) w) =
           buildDialogPreviewBlocks (stringWidth E) (dayjsFormat E) (chalkHex E) (messages p) (hide E)
             (Some (getPreviewInnerWidth (initialPicker E (f0 # others) w)))"
    using content by (simp add: run [unfolded files_def] applyLayout_eq W_def files_def)
  show "previewCache (pickSessionSplitTUI E (f0 # others) w) key =
           (if key = previewKey (path f0) (getPreviewInnerWidth (initialPicker E (f0 # others) w))
            then Some (buildDialogPreviewBlocks (stringWidth E) (dayjsFormat E) (chalkHex E) (messages p)
                         (hide E) (Some (getPreviewInnerWidth (initialPicker E (f0 # others) w))))
            else None)"
    using hit other [of key] by (simp add: run [unfolded files_def] applyLayout_eq W_def files_def)
  show "metaCache (pickSessionSplitTUI E (f0 # others) w) = Map.empty"
    using meta by (simp add: run [unfolded files_def] applyLayout_eq)
  show "leftW (pickSessionSplitTUI E (f0 # others) w) = leftW (initialPicker E (f0 # others) w)"
    using c4 by (simp add: run [unfolded files_def] applyLayout_eq sameControl_def s2_def s1
        initialPicker_def files_def)
qed


lemma exampleEnv_fields:
  "stringWidth exampleEnv = exampleWidth" "dayjsFormat exampleEnv = exampleClock"
  "chalkHex exampleEnv = plainChalk" "hide exampleEnv = [''tool'']"
  "unlink exampleEnv q = None" "floorScaled exampleEnv w = (w * 35) div 100"
  "\<not> workspaceMode exampleEnv"
  by (simp_all add: exampleEnv_def)

lemma start40_facts:
  "\<not> modalActive start40" "\<not> destroyed start40" "\<not> fullView start40"
  "selectedFile start40 = Some fileA" "selectedIndex start40 = 0" "pageItems start40 = [fileA]"
  "screenWidth start40 = 40" "leftW start40 = 30"
  "parseSessionFile exampleEnv (path fileA) =
     Inr \<lparr>parsed_meta = \<lparr>meta_id = ''id-A'', cwd = ''/work'', startTime = []\<rparr>,
          messages = exampleMessages\<rparr>"
  "getPreviewInnerWidth (initialPicker exampleEnv [fileA] 40) = 10"
proof -
  show "\<not> modalActive start40" "\<not> destroyed start40" "\<not> fullView start40"
    "selectedFile start40 = Some fileA" "selectedIndex start40 = 0" "pageItems start40 = [fileA]"
    "screenWidth start40 = 40"
    by (simp_all add: start40_def pickSession_start selectedFile_def itemAt_def)
  show parse: "parseSessionFile exampleEnv (path fileA) =
     Inr \<lparr>parsed_meta = \<lparr>meta_id = ''id-A'', cwd = ''/work'', startTime = []\<rparr>,
          messages = exampleMessages\<rparr>"
    by (simp add: exampleEnv_def fileA_def)
  show "leftW start40 = 30"
    unfolding start40_def start_preview(4) [OF parse]
    by (simp add: initialPicker_def exampleEnv_fields)
  show "getPreviewInnerWidth (initialPicker exampleEnv [fileA] 40) = 10"
    by (simp add: getPreviewInnerWidth_def initialPicker_def exampleEnv_fields gap_def)
qed

lemma start40_width:
  "getPreviewInnerWidth start40 = 10"
  "getPreviewInnerWidth (toggleFullView exampleEnv start40) = 38"
  by (simp_all add: toggleFullView_eq getPreviewInnerWidth_def start40_facts gap_def)

lemma start40_preview:
  "previewContent start40 =
     buildDialogPreviewBlocks exampleWidth exampleClock plainChalk exampleMessages [''tool''] (Some 10)"
  "previewCache start40 (previewKey (path fileA) 38) = None"
proof -
  show "previewContent start40 =
     buildDialogPreviewBlocks exampleWidth exampleClock plainChalk exampleMessages [''tool''] (Some 10)"
    unfolding start40_def start_preview(1) [OF start40_facts(9)] start40_facts(10)
    by (simp add: exampleEnv_fields)
  have "previewKey (path fileA) 38 \<noteq> previewKey (path fileA) 10"
    by (simp add: previewKey_def showInt_def showNat.simps)
  then show "previewCache start40 (previewKey (path fileA) 38) = None"
    unfolding start40_def start_preview(2) [OF start40_facts(9)] start40_facts(10)
    by simp
qed




subsection \<open>Prefetch workers and page changes\<close>

lemma samePage_refl: "samePage s s"
  by (simp add: samePage_def)

lemma samePage_trans: "samePage s t \<Longrightarrow> samePage t u \<Longrightarrow> samePage s u"
  by (simp add: samePage_def)

lemma run_append: "run E (as @ bs) s = bindE (run E as s) (run E bs)"
proof (induction as arbitrary: s)
  case Nil
  show ?case by (simp add: bindE_def)
next
  case (Cons a as)
  show ?case
    by (cases "step E a s") (simp_all add: bindE_def Cons.IH)
qed

lemma loadMeta_caches:
  assumes "loadMeta E i s = Inr t"
  shows "msgSummaryCache t = msgSummaryCache s" "previewCache t = previewCache s"
    "previewContent t = previewContent s"
    "metaCache t p \<noteq> None \<Longrightarrow>
       metaCache s p \<noteq> None \<or> (\<exists>f. itemAt (pageItems s) i = Some f \<and> p = path f)"
  using assms
  by (auto simp: loadMeta_def updateItemBox_eq logRead_def Let_def
      split: option.splits if_splits)

lemma loadSummary_caches:
  shows "metaCache (loadSummary E i s) = metaCache s"
    "previewCache (loadSummary E i s) = previewCache s"
    "previewContent (loadSummary E i s) = previewContent s"
    "msgSummaryCache (loadSummary E i s) p \<noteq> None \<Longrightarrow>
       msgSummaryCache s p \<noteq> None \<or> (\<exists>f. itemAt (pageItems s) i = Some f \<and> p = path f)"
  by (auto simp: loadSummary_def updateItemBox_eq logRead_def Let_def
      split: option.splits sum.splits if_splits)

lemma itemAt_mem: "itemAt xs i = Some f \<Longrightarrow> f \<in> set xs"
  by (auto simp: itemAt_def split: if_splits)

lemma meta_drain:
  assumes "0 \<le> idxLoad s"
  shows "\<exists>n t. run E (replicate n MetaWorkerTurn) s = Inr t \<and> metaWorkers t = 0 \<and> samePage s t \<and>
           sumWorkers t = sumWorkers s \<and> idxSum t = idxSum s \<and>
           msgSummaryCache t = msgSummaryCache s \<and>
           (\<forall>p. metaCache t p \<noteq> None \<longrightarrow> metaCache s p \<noteq> None \<or> p \<in> path ` set (pageItems s))"
  using assms
proof (induction "metaWorkers s + nat (int (length (pageItems s)) - idxLoad s)" arbitrary: s
    rule: less_induct)
  case less
  show ?case
  proof (cases "metaWorkers s = 0")
    case True
    have run: "run E (replicate 0 MetaWorkerTurn) s = Inr s" by simp
    show ?thesis
      by (rule exI [of _ 0], rule exI [of _ s]) (use run True samePage_refl in blast)
  next
    case False
    show ?thesis
    proof (cases "idxLoad s < int (length (pageItems s)) \<and> \<not> destroyed s")
      case True
      define s' where "s' = s\<lparr>idxLoad := idxLoad s + 1\<rparr>"
      obtain t1 where t1: "loadMeta E (idxLoad s) s' = Inr t1" "sameControl s' t1"
        using loadMeta_ok [of "idxLoad s" s' E] True less.prems by (auto simp: s'_def)
      have step1: "step E MetaWorkerTurn s = Inr t1"
        using False True t1(1) by (simp add: metaWorker_def s'_def)
      have page1: "samePage s t1" "sumWorkers t1 = sumWorkers s" "idxSum t1 = idxSum s"
        "metaWorkers t1 = metaWorkers s" "idxLoad t1 = idxLoad s + 1" "pageItems t1 = pageItems s"
        using t1(2) loadMeta_caches(2,3) [OF t1(1)]
        by (simp_all add: sameControl_def samePage_def s'_def)
      have cache1: "msgSummaryCache t1 = msgSummaryCache s"
        using loadMeta_caches(1) [OF t1(1)] by (simp add: s'_def)
      have meta1: "metaCache s p \<noteq> None \<or> p \<in> path ` set (pageItems s)"
        if "metaCache t1 p \<noteq> None" for p
        using loadMeta_caches(4) [OF t1(1) that] itemAt_mem by (fastforce simp: s'_def)
      have smaller: "metaWorkers t1 + nat (int (length (pageItems t1)) - idxLoad t1)
                   < metaWorkers s + nat (int (length (pageItems s)) - idxLoad s)"
        using True by (simp add: page1)
      from less.hyps [OF smaller] less.prems page1(5)
      obtain n t where nt: "run E (replicate n MetaWorkerTurn) t1 = Inr t" "metaWorkers t = 0"
        "samePage t1 t" "sumWorkers t = sumWorkers t1" "idxSum t = idxSum t1"
        "msgSummaryCache t = msgSummaryCache t1"
        "\<forall>p. metaCache t p \<noteq> None \<longrightarrow> metaCache t1 p \<noteq> None \<or> p \<in> path ` set (pageItems t1)"
        by auto
      have run: "run E (replicate (Suc n) MetaWorkerTurn) s = Inr t"
        using step1 nt(1) by (simp add: bindE_def)
      have meta: "\<forall>p. metaCache t p \<noteq> None \<longrightarrow> metaCache s p \<noteq> None \<or> p \<in> path ` set (pageItems s)"
      proof (intro allI impI)
        fix p
        assume "metaCache t p \<noteq> None"
        then have "metaCache t1 p \<noteq> None \<or> p \<in> path ` set (pageItems s)"
          using nt(7) page1(6) by simp
        then show "metaCache s p \<noteq> None \<or> p \<in> path ` set (pageItems s)"
          using meta1 [of p] by blast
      qed
      have props: "metaWorkers t = 0" "samePage s t" "sumWorkers t = sumWorkers s"
        "idxSum t = idxSum s" "msgSummaryCache t = msgSummaryCache s"
        using nt(2-6) page1(1-3) cache1 samePage_trans [OF page1(1) nt(3)] by simp_all
      show ?thesis
        by (rule exI [of _ "Suc n"], rule exI [of _ t]) (use run meta props in blast)
    next
      case stop: False
      define s' where "s' = s\<lparr>metaWorkers := metaWorkers s - 1\<rparr>"
      have step1: "step E MetaWorkerTurn s = Inr s'"
        using False stop by (auto simp: metaWorker_def s'_def)
      have smaller: "metaWorkers s' + nat (int (length (pageItems s')) - idxLoad s')
                   < metaWorkers s + nat (int (length (pageItems s)) - idxLoad s)"
        using False by (simp add: s'_def)
      have "0 \<le> idxLoad s'" using less.prems by (simp add: s'_def)
      from less.hyps [OF smaller this]
      obtain n t where nt: "run E (replicate n MetaWorkerTurn) s' = Inr t" "metaWorkers t = 0"
        "samePage s' t" "sumWorkers t = sumWorkers s'" "idxSum t = idxSum s'"
        "msgSummaryCache t = msgSummaryCache s'"
        "\<forall>p. metaCache t p \<noteq> None \<longrightarrow> metaCache s' p \<noteq> None \<or> p \<in> path ` set (pageItems s')"
        by auto
      have run: "run E (replicate (Suc n) MetaWorkerTurn) s = Inr t"
        using step1 nt(1) by (simp add: bindE_def)
      have props: "metaWorkers t = 0" "samePage s t" "sumWorkers t = sumWorkers s"
        "idxSum t = idxSum s" "msgSummaryCache t = msgSummaryCache s"
        "\<forall>p. metaCache t p \<noteq> None \<longrightarrow> metaCache s p \<noteq> None \<or> p \<in> path ` set (pageItems s)"
        using nt(2-7) by (simp_all add: samePage_def s'_def)
      show ?thesis
        by (rule exI [of _ "Suc n"], rule exI [of _ t]) (use run props in blast)
    qed
  qed
qed


lemma summary_drain:
  shows "\<exists>n t. run E (replicate n SummaryWorkerTurn) s = Inr t \<and> sumWorkers t = 0 \<and> samePage s t \<and>
           metaWorkers t = metaWorkers s \<and> idxLoad t = idxLoad s \<and>
           metaCache t = metaCache s \<and>
           (\<forall>p. msgSummaryCache t p \<noteq> None \<longrightarrow>
                msgSummaryCache s p \<noteq> None \<or> p \<in> path ` set (pageItems s))"
proof (induction "sumWorkers s + nat (int (length (pageItems s)) - idxSum s)" arbitrary: s
    rule: less_induct)
  case less
  show ?case
  proof (cases "sumWorkers s = 0")
    case True
    have run: "run E (replicate 0 SummaryWorkerTurn) s = Inr s" by simp
    show ?thesis
      by (rule exI [of _ 0], rule exI [of _ s]) (use run True samePage_refl in blast)
  next
    case False
    define t1 where "t1 = summaryWorker E s"
    have step1: "step E SummaryWorkerTurn s = Inr t1"
      by (simp add: t1_def)
    have page1: "samePage s t1" "metaWorkers t1 = metaWorkers s" "idxLoad t1 = idxLoad s"
      "metaCache t1 = metaCache s" "pageItems t1 = pageItems s"
      and sum1: "\<And>p. msgSummaryCache t1 p \<noteq> None \<Longrightarrow>
                  msgSummaryCache s p \<noteq> None \<or> p \<in> path ` set (pageItems s)"
      and smaller: "sumWorkers t1 + nat (int (length (pageItems t1)) - idxSum t1)
                   < sumWorkers s + nat (int (length (pageItems s)) - idxSum s)"
    proof -
      show "samePage s t1" "metaWorkers t1 = metaWorkers s" "idxLoad t1 = idxLoad s"
        "metaCache t1 = metaCache s" "pageItems t1 = pageItems s"
        using False sameControl_loadSummary [of "s\<lparr>idxSum := idxSum s + 1\<rparr>" E "idxSum s"]
          loadSummary_caches(1-3) [of E "idxSum s" "s\<lparr>idxSum := idxSum s + 1\<rparr>"]
        by (auto simp: t1_def summaryWorker_def sameControl_def samePage_def)
      show "msgSummaryCache s p \<noteq> None \<or> p \<in> path ` set (pageItems s)"
        if "msgSummaryCache t1 p \<noteq> None" for p
      proof (cases "idxSum s < int (length (pageItems s)) \<and> \<not> destroyed s")
        case True
        then have "t1 = loadSummary E (idxSum s) (s\<lparr>idxSum := idxSum s + 1\<rparr>)"
          using False by (simp add: t1_def summaryWorker_def)
        with loadSummary_caches(4) [of E "idxSum s" "s\<lparr>idxSum := idxSum s + 1\<rparr>" p] that
        show ?thesis using itemAt_mem by fastforce
      next
        case stop: False
        then have "t1 = s\<lparr>sumWorkers := sumWorkers s - 1\<rparr>"
          using False by (auto simp: t1_def summaryWorker_def)
        with that show ?thesis by simp
      qed
      show "sumWorkers t1 + nat (int (length (pageItems t1)) - idxSum t1)
                   < sumWorkers s + nat (int (length (pageItems s)) - idxSum s)"
      proof (cases "idxSum s < int (length (pageItems s)) \<and> \<not> destroyed s")
        case True
        then have "t1 = loadSummary E (idxSum s) (s\<lparr>idxSum := idxSum s + 1\<rparr>)"
          using False by (simp add: t1_def summaryWorker_def)
        then have "sumWorkers t1 = sumWorkers s" "idxSum t1 = idxSum s + 1" "pageItems t1 = pageItems s"
          using sameControl_loadSummary [of "s\<lparr>idxSum := idxSum s + 1\<rparr>" E "idxSum s"]
          by (simp_all add: sameControl_def)
        with True show ?thesis by simp
      next
        case stop: False
        then have "t1 = s\<lparr>sumWorkers := sumWorkers s - 1\<rparr>"
          using False by (auto simp: t1_def summaryWorker_def)
        with False show ?thesis by simp
      qed
    qed
    from less.hyps [OF smaller]
    obtain n t where nt: "run E (replicate n SummaryWorkerTurn) t1 = Inr t" "sumWorkers t = 0"
      "samePage t1 t" "metaWorkers t = metaWorkers t1" "idxLoad t = idxLoad t1"
      "metaCache t = metaCache t1"
      "\<forall>p. msgSummaryCache t p \<noteq> None \<longrightarrow> msgSummaryCache t1 p \<noteq> None \<or> p \<in> path ` set (pageItems t1)"
      by auto
    have run: "run E (replicate (Suc n) SummaryWorkerTurn) s = Inr t"
      using step1 nt(1) by (simp add: bindE_def del: step.simps)
    have sums: "\<forall>p. msgSummaryCache t p \<noteq> None \<longrightarrow>
                    msgSummaryCache s p \<noteq> None \<or> p \<in> path ` set (pageItems s)"
    proof (intro allI impI)
      fix p
      assume "msgSummaryCache t p \<noteq> None"
      then have "msgSummaryCache t1 p \<noteq> None \<or> p \<in> path ` set (pageItems s)"
        using nt(7) page1(5) by simp
      then show "msgSummaryCache s p \<noteq> None \<or> p \<in> path ` set (pageItems s)"
        using sum1 [of p] by blast
    qed
    have props: "sumWorkers t = 0" "samePage s t" "metaWorkers t = metaWorkers s"
      "idxLoad t = idxLoad s" "metaCache t = metaCache s"
      using nt(2-6) page1(1-4) samePage_trans [OF page1(1) nt(3)] by simp_all
    show ?thesis
      by (rule exI [of _ "Suc n"], rule exI [of _ t]) (use run sums props in blast)
  qed
qed

lemma rightKey_eq:
  assumes "\<not> modalActive s" "0 \<le> currentPage s"
    and "currentPage s < ceilPages (length (visibleFiles s)) - 1"
  shows "rightKey E s =
     updatePreviewForIndex E 0
       (s\<lparr>currentPage := currentPage s + 1,
          pageItems := take 30 (drop (nat ((currentPage s + 1) * 30)) (visibleFiles s)),
          selectedIndex := 0,
          cacheReads := cacheReads s @
            concat (map itemReads (take 30 (drop (nat ((currentPage s + 1) * 30)) (visibleFiles s)))),
          idxLoad := 0, idxSum := 0\<rparr>)"
  using assms
  by (simp add: rightKey_def Let_def updatePageItems_eq)

lemma idle_workers:
  "metaWorkers u = 0 \<Longrightarrow> run E (replicate n MetaWorkerTurn) u = Inr u"
  "sumWorkers u = 0 \<Longrightarrow> run E (replicate n SummaryWorkerTurn) u = Inr u"
  by (induction n) (simp_all add: metaWorker_def summaryWorker_def bindE_def)


lemma start_summary:
  assumes "msgSummaryCache (pickSessionSplitTUI E (f0 # others) w) p \<noteq> None"
  shows "p = path f0"
proof (rule ccontr)
  assume other: "p \<noteq> path f0"
  define s2 where "s2 = (updatePageItems (initialPicker E (f0 # others) w))
                          \<lparr>idxLoad := 0, metaWorkers := 8, idxSum := 0, sumWorkers := 3\<rparr>"
  have s2: "pageItems s2 = take 30 (f0 # others)" "msgSummaryCache s2 = Map.empty"
    by (simp_all add: s2_def updatePageItems_eq initialPicker_def)
  have item: "itemAt (pageItems s2) 0 = Some f0"
    by (simp add: itemAt_def s2)
  have "setSelectedIndex 0 s2 = s2"
    by (simp add: setSelectedIndex_def s2_def updatePageItems_eq initialPicker_def)
  then have "pickSessionSplitTUI E (f0 # others) w = applyLayout E (updatePreviewForIndex E 0 s2)"
    by (simp add: pickSessionSplitTUI_def Let_def s2_def)
  then have "msgSummaryCache (pickSessionSplitTUI E (f0 # others) w) p = None"
    using updatePreview_caches(2) [OF item other, of E] by (simp add: applyLayout_eq s2)
  with assms show False by simp
qed

lemma files32_pages:
  "files32 = numbered 0 # map numbered [1..<32]"
  "take 30 files32 = map numbered [0..<30]"
  "take 30 (drop 30 files32) = [numbered 30, numbered 31]"
  "length files32 = 32"
proof -
  show "files32 = numbered 0 # map numbered [1..<32]"
    unfolding files32_def by (subst upt_rec) simp
  show "take 30 files32 = map numbered [0..<30]"
    by (simp add: files32_def take_map)
  have "[30..<32] = [30, 31::nat]"
    by (simp add: upt_rec)
  then show "take 30 (drop 30 files32) = [numbered 30, numbered 31]"
    by (simp add: files32_def drop_map take_map)
  show "length files32 = 32"
    by (simp add: files32_def)
qed

lemma first_page_paths:
  assumes "p \<in> path ` set (map numbered [0..<30])"
  shows "length p \<le> 30"
  using assms by (auto simp: numbered_def)

text \<open>The picker opened on 32 files, after the two worker pools have run until every
  worker has ended and the right key has changed to the second page.\<close>

lemma drained_second_page:
  "\<exists>n1 n2 t u.
         run exampleEnv (replicate n1 MetaWorkerTurn @ replicate n2 SummaryWorkerTurn) start32 = Inr t
       \<and> metaWorkers t = 0 \<and> sumWorkers t = 0 \<and> pending t = []
       \<and> step exampleEnv (Key KeyRight) t = Inr u
       \<and> currentPage u = 1 \<and> pageItems u = [numbered 30, numbered 31] \<and> selectedIndex u = 0
       \<and> idxLoad u = 0 \<and> idxSum u = 0 \<and> metaWorkers u = 0 \<and> sumWorkers u = 0
       \<and> metaCache u (path (numbered 30)) = None \<and> metaCache u (path (numbered 31)) = None
       \<and> msgSummaryCache u (path (numbered 31)) = None
       \<and> (\<forall>n. run exampleEnv (replicate n MetaWorkerTurn) u = Inr u)
       \<and> (\<forall>n. run exampleEnv (replicate n SummaryWorkerTurn) u = Inr u)
       \<and> \<not> modalActive u \<and> \<not> screenDestroyed u \<and> overlays u = [] \<and> pending u = []
       \<and> editedArgs u = [] \<and> visibleFiles u = files32"
proof -
  have ne: "files32 \<noteq> []" by (simp add: files32_pages(1))
  have start: "visibleFiles start32 = files32" "currentPage start32 = 0"
    "pageItems start32 = map numbered [0..<30]" "\<not> modalActive start32"
    "\<not> screenDestroyed start32" "idxLoad start32 = 0" "overlays start32 = []"
    "pending start32 = []" "editedArgs start32 = []"
    by (simp_all add: start32_def pickSession_start [OF ne] files32_pages(2))
  have parse: "parseSessionFile exampleEnv (path (numbered 0)) =
     Inr \<lparr>parsed_meta = \<lparr>meta_id = ''id-'' @ path (numbered 0), cwd = ''/work'', startTime = []\<rparr>,
          messages = exampleMessages\<rparr>"
    by (simp add: exampleEnv_def)
  have meta0: "metaCache start32 = Map.empty"
    unfolding start32_def files32_pages(1) by (rule start_preview(3) [OF parse])
  have sum0: "p \<in> path ` set (map numbered [0..<30])" if "msgSummaryCache start32 p \<noteq> None" for p
  proof -
    have "p = path (numbered 0)"
      using that unfolding start32_def files32_pages(1) by (rule start_summary)
    then show ?thesis by (simp add: upt_rec [of 0 30])
  qed
  from meta_drain [of start32 exampleEnv] start(6)
  obtain n1 t1 where t1: "run exampleEnv (replicate n1 MetaWorkerTurn) start32 = Inr t1"
    "metaWorkers t1 = 0" "samePage start32 t1" "msgSummaryCache t1 = msgSummaryCache start32"
    "\<forall>p. metaCache t1 p \<noteq> None \<longrightarrow> metaCache start32 p \<noteq> None \<or> p \<in> path ` set (pageItems start32)"
    by auto
  from summary_drain [of exampleEnv t1]
  obtain n2 t where t: "run exampleEnv (replicate n2 SummaryWorkerTurn) t1 = Inr t"
    "sumWorkers t = 0" "samePage t1 t" "metaWorkers t = metaWorkers t1" "metaCache t = metaCache t1"
    "\<forall>p. msgSummaryCache t p \<noteq> None \<longrightarrow> msgSummaryCache t1 p \<noteq> None \<or> p \<in> path ` set (pageItems t1)"
    by auto
  have run: "run exampleEnv (replicate n1 MetaWorkerTurn @ replicate n2 SummaryWorkerTurn) start32 = Inr t"
    by (simp add: run_append t1(1) t(1) bindE_def)
  have page: "samePage start32 t"
    using t1(3) t(3) by (rule samePage_trans)
  have tf: "visibleFiles t = files32" "currentPage t = 0" "\<not> modalActive t" "\<not> screenDestroyed t"
    "pageItems t1 = map numbered [0..<30]" "overlays t = []" "pending t = []" "editedArgs t = []"
    using page t1(3) by (simp_all add: samePage_def start)
  have metaT: "length p \<le> 30" if "metaCache t p \<noteq> None" for p
    using that t1(5) t(5) meta0 first_page_paths [of p] by (simp add: start)
  have sumT: "length p \<le> 30" if "msgSummaryCache t p \<noteq> None" for p
    using that t(6) t1(4) sum0 [of p] first_page_paths [of p] by (auto simp: tf)
  define t' where "t' = t\<lparr>currentPage := currentPage t + 1,
          pageItems := take 30 (drop (nat ((currentPage t + 1) * 30)) (visibleFiles t)),
          selectedIndex := 0,
          cacheReads := cacheReads t @
            concat (map itemReads (take 30 (drop (nat ((currentPage t + 1) * 30)) (visibleFiles t)))),
          idxLoad := 0, idxSum := 0\<rparr>"
  define u where "u = updatePreviewForIndex exampleEnv 0 t'"
  have right: "rightKey exampleEnv t = u"
    unfolding u_def t'_def
    by (rule rightKey_eq) (simp_all add: tf ceilPages_def ITEMS_PER_PAGE_def files32_pages(4))
  have step: "step exampleEnv (Key KeyRight) t = Inr u"
    by (simp add: dispatch_browsing tf right)
  have t'f: "pageItems t' = [numbered 30, numbered 31]" "currentPage t' = 1" "selectedIndex t' = 0"
    "idxLoad t' = 0" "idxSum t' = 0" "metaWorkers t' = 0" "sumWorkers t' = 0"
    "metaCache t' = metaCache t" "msgSummaryCache t' = msgSummaryCache t"
    "\<not> modalActive t'" "\<not> screenDestroyed t'" "overlays t' = []" "pending t' = []"
    "editedArgs t' = []" "visibleFiles t' = files32"
    by (simp_all add: t'_def tf files32_pages(3) t(2,4) t1(2))
  have cu: "sameControl t' u"
    unfolding u_def by (rule sameControl_updatePreview)
  have item: "itemAt (pageItems t') 0 = Some (numbered 30)"
    by (simp add: itemAt_def t'f)
  have uf: "currentPage u = 1" "pageItems u = [numbered 30, numbered 31]" "selectedIndex u = 0"
    "idxLoad u = 0" "idxSum u = 0" "metaWorkers u = 0" "sumWorkers u = 0"
    "\<not> modalActive u" "\<not> screenDestroyed u" "overlays u = []" "pending u = []"
    "editedArgs u = []" "visibleFiles u = files32"
    using cu by (simp_all add: sameControl_def t'f)
  have metaU: "metaCache u = metaCache t"
    unfolding u_def using updatePreview_caches(1) [OF item, of exampleEnv] by (simp add: t'f)
  have len: "length (path (numbered 30)) = 31" "length (path (numbered 31)) = 32"
    by (simp_all add: numbered_def)
  have m30: "metaCache u (path (numbered 30)) = None"
  proof (rule ccontr)
    assume "metaCache u (path (numbered 30)) \<noteq> None"
    then have "length (path (numbered 30)) \<le> 30"
      unfolding metaU by (rule metaT)
    then show False by (simp add: len)
  qed
  have m31: "metaCache u (path (numbered 31)) = None"
  proof (rule ccontr)
    assume "metaCache u (path (numbered 31)) \<noteq> None"
    then have "length (path (numbered 31)) \<le> 30"
      unfolding metaU by (rule metaT)
    then show False by (simp add: len)
  qed
  have "path (numbered 31) \<noteq> path (numbered 30)"
    using len by auto
  then have same: "msgSummaryCache u (path (numbered 31)) = msgSummaryCache t (path (numbered 31))"
    unfolding u_def using updatePreview_caches(2) [OF item, of "path (numbered 31)" exampleEnv]
    by (simp add: t'f)
  have s31: "msgSummaryCache u (path (numbered 31)) = None"
  proof (rule ccontr)
    assume "msgSummaryCache u (path (numbered 31)) \<noteq> None"
    then have "length (path (numbered 31)) \<le> 30"
      unfolding same by (rule sumT)
    then show False by (simp add: len)
  qed
  have idle: "\<forall>n. run exampleEnv (replicate n MetaWorkerTurn) u = Inr u"
    "\<forall>n. run exampleEnv (replicate n SummaryWorkerTurn) u = Inr u"
    using idle_workers [of u exampleEnv] uf(6,7) by simp_all
  show ?thesis
    by (rule exI [of _ n1], rule exI [of _ n2], rule exI [of _ t], rule exI [of _ u])
       (use run t1(2) t(2,4) tf(7) step uf m30 m31 s31 idle in simp)
qed



text \<open>
  C5 at a concrete input.  The picker is opened on 32 files.  The two pools started at
  the beginning run until every worker has ended (the loops end when the cursor reaches
  the end of the first page).  Then the right key changes to the second page: the page is
  the new slice, the selection is 0 and both cursors are 0, but no worker is alive or
  waiting for a load and no new one is started, so worker turns change nothing: the metadata of both files of the
  new page and the summary of its second file stay out of the caches.
\<close>

theorem page_change_starts_no_worker:
  "\<exists>evs t u. run exampleEnv evs start32 = Inr t \<and> metaWorkers t = 0 \<and> sumWorkers t = 0
       \<and> pending t = []
       \<and> step exampleEnv (Key KeyRight) t = Inr u
       \<and> currentPage u = 1 \<and> pageItems u = [numbered 30, numbered 31] \<and> selectedIndex u = 0
       \<and> idxLoad u = 0 \<and> idxSum u = 0 \<and> metaWorkers u = 0 \<and> sumWorkers u = 0
       \<and> pending u = []
       \<and> metaCache u (path (numbered 30)) = None \<and> metaCache u (path (numbered 31)) = None
       \<and> msgSummaryCache u (path (numbered 31)) = None
       \<and> (\<forall>n. run exampleEnv (replicate n MetaWorkerTurn) u = Inr u)
       \<and> (\<forall>n. run exampleEnv (replicate n SummaryWorkerTurn) u = Inr u)"
proof -
  from drained_second_page obtain n1 n2 t u where
    "run exampleEnv (replicate n1 MetaWorkerTurn @ replicate n2 SummaryWorkerTurn) start32 = Inr t"
    "metaWorkers t = 0" "sumWorkers t = 0" "pending t = []"
    "step exampleEnv (Key KeyRight) t = Inr u"
    "currentPage u = 1" "pageItems u = [numbered 30, numbered 31]" "selectedIndex u = 0"
    "idxLoad u = 0" "idxSum u = 0" "metaWorkers u = 0" "sumWorkers u = 0" "pending u = []"
    "metaCache u (path (numbered 30)) = None" "metaCache u (path (numbered 31)) = None"
    "msgSummaryCache u (path (numbered 31)) = None"
    "\<forall>n. run exampleEnv (replicate n MetaWorkerTurn) u = Inr u"
    "\<forall>n. run exampleEnv (replicate n SummaryWorkerTurn) u = Inr u"
    by blast
  then show ?thesis
    by (intro exI [of _ "replicate n1 MetaWorkerTurn @ replicate n2 SummaryWorkerTurn"]
        exI [of _ t] exI [of _ u]) simp
qed

text \<open>What a page change does do: nothing without a previous or next page; otherwise the
  page is the new slice, the selection is 0, both cursors are 0 and the first item's preview
  is loaded.  The worker counts are not touched.\<close>

lemma page_change_effects:
  "\<not> currentPage s > 0 \<Longrightarrow> leftKey E s = s"
  "\<not> currentPage s < ceilPages (length (visibleFiles s)) - 1 \<Longrightarrow> rightKey E s = s"
  "\<not> modalActive s \<Longrightarrow> 0 \<le> currentPage s \<Longrightarrow>
   currentPage s < ceilPages (length (visibleFiles s)) - 1 \<Longrightarrow>
   sameControl
     (s\<lparr>currentPage := currentPage s + 1,
        pageItems := take 30 (drop (nat ((currentPage s + 1) * 30)) (visibleFiles s)),
        selectedIndex := 0, idxLoad := 0, idxSum := 0\<rparr>)
     (rightKey E s)"
proof -
  show "\<not> currentPage s > 0 \<Longrightarrow> leftKey E s = s"
    by (simp add: leftKey_def)
  show "\<not> currentPage s < ceilPages (length (visibleFiles s)) - 1 \<Longrightarrow> rightKey E s = s"
    by (simp add: rightKey_def Let_def)
  assume a: "\<not> modalActive s" "0 \<le> currentPage s"
    "currentPage s < ceilPages (length (visibleFiles s)) - 1"
  show "sameControl
     (s\<lparr>currentPage := currentPage s + 1,
        pageItems := take 30 (drop (nat ((currentPage s + 1) * 30)) (visibleFiles s)),
        selectedIndex := 0, idxLoad := 0, idxSum := 0\<rparr>)
     (rightKey E s)"
    unfolding rightKey_eq [OF a]
    using sameControl_updatePreview
      [of "s\<lparr>currentPage := currentPage s + 1,
          pageItems := take 30 (drop (nat ((currentPage s + 1) * 30)) (visibleFiles s)),
          selectedIndex := 0,
          cacheReads := cacheReads s @
            concat (map itemReads (take 30 (drop (nat ((currentPage s + 1) * 30)) (visibleFiles s)))),
          idxLoad := 0, idxSum := 0\<rparr>" E 0]
    by (simp add: sameControl_def)
qed

subsection \<open>The whole delete request\<close>

text \<open>From the Browsing state in which \<open>d\<close> is pressed: the only thing the request can
  add before the dialog opens is the metadata entry of the selected file (looked up for
  the dialog's id line).  With a failing \<open>fs.unlink\<close> everything else is as it was when
  \<open>d\<close> was pressed, and so is the metadata cache when the entry was there already.\<close>

lemma failed_delete_from_browsing:
  assumes "selectedFile s0 = Some f" and "unlink E (path f) = Some msg"
    and "t = overlayKey E KeyY (deleteSelectedFile E0 s0)"
  shows "visibleFiles t = visibleFiles s0" and "pageItems t = pageItems s0"
    and "currentPage t = currentPage s0" and "selectedIndex t = selectedIndex s0"
    and "msgSummaryCache t = msgSummaryCache s0" and "previewCache t = previewCache s0"
    and "p \<noteq> path f \<Longrightarrow> metaCache t p = metaCache s0 p"
    and "metaCache s0 (path f) = Some m \<Longrightarrow> metaCache t = metaCache s0"
    and "\<not> modalActive t" and "overlays t = DeleteFailed msg # overlays s0"
    and "resolved t = resolved s0" and "destroyed t = destroyed s0"
proof -
  obtain ident where dialog:
    "overlays (deleteSelectedFile E0 s0) = ConfirmDelete ident f 1 # overlays s0"
    using deleteSelectedFile_opens(1) [OF assms(1)] by blast
  have t: "t = (deleteSelectedFile E0 s0)\<lparr>overlays := DeleteFailed msg # overlays s0,
                                            modalActive := False\<rparr>"
    unfolding assms(3) overlayKey_confirm(1) [OF dialog] deleteConfirmed_failed [OF assms(2)]
    by simp
  show "visibleFiles t = visibleFiles s0" "pageItems t = pageItems s0"
    "currentPage t = currentPage s0" "selectedIndex t = selectedIndex s0"
    "msgSummaryCache t = msgSummaryCache s0" "previewCache t = previewCache s0"
    "\<not> modalActive t" "overlays t = DeleteFailed msg # overlays s0"
    "resolved t = resolved s0" "destroyed t = destroyed s0"
    by (simp_all add: t deleteSelectedFile_opens [OF assms(1)])
  show "p \<noteq> path f \<Longrightarrow> metaCache t p = metaCache s0 p"
    by (simp add: t deleteSelectedFile_opens(12) [OF assms(1)])
  show "metaCache s0 (path f) = Some m \<Longrightarrow> metaCache t = metaCache s0"
    by (simp add: t deleteSelectedFile_opens(13) [OF assms(1)])
qed

subsection \<open>A failed deletion\<close>

lemma deleteSelectedFile_frame:
  assumes "selectedFile s = Some f"
  shows "editedArgs (deleteSelectedFile E s) = editedArgs s"
    and "pending (deleteSelectedFile E s) = pending s"
    and "fullView (deleteSelectedFile E s) = fullView s"
    and "screenWidth (deleteSelectedFile E s) = screenWidth s"
    and "leftW (deleteSelectedFile E s) = leftW s"
  using assms
  by (simp_all add: deleteSelectedFile_def confirmDeleteDialog_def logRead_def Let_def
      split: option.splits)

text \<open>Down, down and \<open>d\<close> on the picker opened on A, B, C, in any environment: the
  confirmation for C is open.\<close>

lemma select_C_press_d:
  "\<exists>s ident. run E [Key KeyDown, Key KeyDown, Key KeyD] (pickSessionSplitTUI E [fileA, fileB, fileC] 100)
                 = Inr s
     \<and> overlays s = [ConfirmDelete ident fileC 1] \<and> visibleFiles s = [fileA, fileB, fileC]
     \<and> pageItems s = [fileA, fileB, fileC] \<and> currentPage s = 0 \<and> selectedIndex s = 2
     \<and> modalActive s \<and> resolved s = None \<and> \<not> destroyed s \<and> \<not> screenDestroyed s
     \<and> editedArgs s = [] \<and> pending s = []"
proof -
  define s0 where "s0 = pickSessionSplitTUI E [fileA, fileB, fileC] 100"
  have start: "\<not> modalActive s0" "pageItems s0 = [fileA, fileB, fileC]"
    "selectedIndex s0 = 0" "\<not> screenDestroyed s0" "visibleFiles s0 = [fileA, fileB, fileC]"
    "currentPage s0 = 0" "resolved s0 = None" "\<not> destroyed s0"
    "overlays s0 = []" "editedArgs s0 = []" "pending s0 = []"
    by (simp_all add: s0_def pickSession_start)
  obtain t1 where t1: "navKey E KeyDown s0 = Inr t1"
    "sameControl (s0\<lparr>selectedIndex := 1\<rparr>) t1"
    using navKey_result [of s0 KeyDown E] by (auto simp: start)
  have c1: "\<not> modalActive t1" "pageItems t1 = [fileA, fileB, fileC]" "selectedIndex t1 = 1"
    "\<not> screenDestroyed t1" "overlays t1 = []"
    using t1(2) by (simp_all add: sameControl_def start)
  obtain t2 where t2: "navKey E KeyDown t1 = Inr t2"
    "sameControl (t1\<lparr>selectedIndex := 2\<rparr>) t2"
    using navKey_result [of t1 KeyDown E] by (auto simp: c1)
  have c2: "\<not> modalActive t2" "pageItems t2 = [fileA, fileB, fileC]" "selectedIndex t2 = 2"
    "\<not> screenDestroyed t2" "visibleFiles t2 = [fileA, fileB, fileC]" "currentPage t2 = 0"
    "resolved t2 = None" "\<not> destroyed t2" "overlays t2 = []" "editedArgs t2 = []" "pending t2 = []"
    using t1(2) t2(2) by (simp_all add: sameControl_def start)
  have sel: "selectedFile t2 = Some fileC"
    by (simp add: selectedFile_def itemAt_def c2)
  have run: "run E [Key KeyDown, Key KeyDown, Key KeyD] s0 = Inr (deleteSelectedFile E t2)"
    by (simp add: dispatch_browsing start c1 c2 t1(1) t2(1) bindE_def)
  obtain ident where ov: "overlays (deleteSelectedFile E t2) = [ConfirmDelete ident fileC 1]"
    using deleteSelectedFile_opens(1) [OF sel, of E] by (auto simp: c2)
  show ?thesis
    unfolding s0_def [symmetric]
    by (rule exI [of _ "deleteSelectedFile E t2"], rule exI [of _ ident], intro conjI, rule run)
       (simp_all add: ov deleteSelectedFile_opens(2-) [OF sel] deleteSelectedFile_frame [OF sel] c2)
qed

text \<open>The keys of the delete-failed notice with the modal flag off: the screen handler of
  the key runs first, then the notice closes.\<close>

lemma notice_keys:
  assumes "\<not> screenDestroyed s" "\<not> modalActive s" "overlays s = DeleteFailed msg # others"
    and "selectedFile s = Some f" "visibleFiles s \<noteq> []" "resolved s = None"
  shows "step E (Key KeyEnter) s =
           Inr (s\<lparr>destroyed := True, screenDestroyed := True,
                   resolved := Some (Some (Resume (path f) (editedArgs s))), overlays := others\<rparr>)"
    and "step E (Key KeyQ) s =
           Inr (s\<lparr>destroyed := True, screenDestroyed := True, resolved := Some None,
                   overlays := others\<rparr>)"
    and "step E (Key KeyEscape) s =
           Inr (s\<lparr>destroyed := True, screenDestroyed := True, resolved := Some None,
                   overlays := others\<rparr>)"
  using assms
  by (simp_all add: dispatch_def grabbing_def bindE_def resumeKey_def quitKey_def resolve_def
      destroyScreen_def overlayKey_def afterDelete_def)

text \<open>
  C3 at a concrete input.  The picker is opened on A, B, C where \<open>fs.unlink\<close> throws; C
  is selected, \<open>d\<close> is pressed and the confirmation is answered with \<open>y\<close>.  The
  delete-failed notice is then open, the modal flag is off, and the lists, the page and the
  selection are as they were.  The notice is closed by enter, escape or q.  Each of these
  keys also has a screen handler, which nothing holds back: enter resumes C, the session
  whose deletion has just failed, and escape and q end the picker with \<open>null\<close>.  No key
  closes the notice and leaves the picker browsing.
\<close>

theorem delete_failed_notice_keys_end_picker:
  "\<exists>s. run failingEnv [Key KeyDown, Key KeyDown, Key KeyD, Key KeyY]
           (pickSessionSplitTUI failingEnv [fileA, fileB, fileC] 100) = Inr s
      \<and> overlays s = [DeleteFailed ''EACCES: permission denied''] \<and> \<not> modalActive s
      \<and> resolved s = None \<and> \<not> screenDestroyed s
      \<and> visibleFiles s = [fileA, fileB, fileC] \<and> pageItems s = [fileA, fileB, fileC]
      \<and> selectedIndex s = 2
      \<and> (\<exists>t. step failingEnv (Key KeyEnter) s = Inr t \<and> screenDestroyed t
              \<and> resolved t = Some (Some (Resume ''C'' [])))
      \<and> (\<exists>t. step failingEnv (Key KeyQ) s = Inr t \<and> screenDestroyed t \<and> resolved t = Some None)
      \<and> (\<exists>t. step failingEnv (Key KeyEscape) s = Inr t \<and> screenDestroyed t \<and> resolved t = Some None)"
proof -
  from select_C_press_d [of failingEnv] obtain d ident where
    d: "run failingEnv [Key KeyDown, Key KeyDown, Key KeyD]
          (pickSessionSplitTUI failingEnv [fileA, fileB, fileC] 100) = Inr d"
    "overlays d = [ConfirmDelete ident fileC 1]" "visibleFiles d = [fileA, fileB, fileC]"
    "pageItems d = [fileA, fileB, fileC]" "currentPage d = 0" "selectedIndex d = 2"
    "modalActive d" "resolved d = None" "\<not> destroyed d" "\<not> screenDestroyed d"
    "editedArgs d = []" "pending d = []"
    by blast
  have fails: "unlink failingEnv (path fileC) = Some ''EACCES: permission denied''"
    by (simp add: failingEnv_def)
  define s where "s = d\<lparr>overlays := [DeleteFailed ''EACCES: permission denied''], modalActive := False\<rparr>"
  have yes: "step failingEnv (Key KeyY) d = Inr s"
    using dispatch_confirm [OF d(10) d(7) _ d(2), of KeyY failingEnv]
    by (simp add: overlayKey_confirm(1) [OF d(2)] deleteConfirmed_failed [OF fails] s_def)
  have "run failingEnv ([Key KeyDown, Key KeyDown, Key KeyD] @ [Key KeyY])
          (pickSessionSplitTUI failingEnv [fileA, fileB, fileC] 100) = Inr s"
    unfolding run_append d(1) using yes by (simp add: bindE_def)
  then have run: "run failingEnv [Key KeyDown, Key KeyDown, Key KeyD, Key KeyY]
          (pickSessionSplitTUI failingEnv [fileA, fileB, fileC] 100) = Inr s"
    by simp
  have sf: "\<not> screenDestroyed s" "\<not> modalActive s"
    "overlays s = DeleteFailed ''EACCES: permission denied'' # []"
    "selectedFile s = Some fileC" "visibleFiles s \<noteq> []" "resolved s = None"
    "visibleFiles s = [fileA, fileB, fileC]" "pageItems s = [fileA, fileB, fileC]"
    "selectedIndex s = 2" "editedArgs s = []"
    by (simp_all add: s_def d selectedFile_def itemAt_def)
  note keys = notice_keys [OF sf(1-6), of failingEnv]
  show ?thesis
    by (rule exI [of _ s], intro conjI, rule run)
       (simp_all add: sf keys fileC_def del: step.simps)
qed

lemma run_then: "run E as s = Inr t \<Longrightarrow> run E bs t = Inr u \<Longrightarrow> run E (as @ bs) s = Inr u"
  by (simp add: run_append bindE_def)

lemma run_Cons: "step E a s = Inr t \<Longrightarrow> run E bs t = Inr u \<Longrightarrow> run E (a # bs) s = Inr u"
  by (simp add: bindE_def)

subsection \<open>A key inside the metadata lookup of the delete handler\<close>

text \<open>\<open>d\<close> on a file whose metadata is not cached, \<open>-\<close> before the lookup returns, then
  the lookup returns: the confirmation opens on top of the edit-options box.\<close>

lemma delete_lookup_window:
  assumes "\<not> screenDestroyed s" "\<not> modalActive s" "overlays s = []"
    and "selectedFile s = Some f" "metaCache s (path f) = None" "pending s = []"
  shows "\<exists>t ident. run E [KeyAwait KeyD, Key KeyMinus, Complete 0] s = Inr t
           \<and> overlays t = [ConfirmDelete ident f 1, EditOptions (editedArgs s)]
           \<and> modalActive t \<and> \<not> screenDestroyed t \<and> pending t = []"
  using assms
  by (cases "quickMeta E (path f)")
     (simp_all add: dispatch_def grabbing_def bindE_def deleteSelectedFileAwait_def suspend_def
       logRead_def askEditOptions_def deleteLookupResume_def confirmDeleteDialog_def Let_def)

text \<open>
  C4 at a concrete input.  The picker is opened on 32 files, the prefetch workers run to
  their end, and the right key changes to the second page, whose metadata no worker loads.
  Then \<open>d\<close> is pressed: its handler passes the test of \<open>modalActive\<close> and waits for the
  metadata of the selected file; the flag is set only when the dialog opens.  \<open>-\<close>
  arrives before the lookup returns: its handler passes the same test and opens the
  edit-options box.  When the lookup returns the delete confirmation opens as well: both
  modals are open at once.
\<close>

theorem delete_lookup_window_opens_two_modals:
  "\<exists>n1 n2 t ident.
       run exampleEnv (replicate n1 MetaWorkerTurn @ replicate n2 SummaryWorkerTurn
                          @ [Key KeyRight, KeyAwait KeyD, Key KeyMinus, Complete 0]) start32 = Inr t
     \<and> overlays t = [ConfirmDelete ident (numbered 30) 1, EditOptions []]
     \<and> modalActive t \<and> \<not> screenDestroyed t"
proof -
  from drained_second_page obtain n1 n2 s u where
    s: "run exampleEnv (replicate n1 MetaWorkerTurn @ replicate n2 SummaryWorkerTurn) start32 = Inr s"
    and u: "step exampleEnv (Key KeyRight) s = Inr u"
    and uf: "pageItems u = [numbered 30, numbered 31]" "selectedIndex u = 0"
      "metaCache u (path (numbered 30)) = None"
      "\<not> modalActive u" "\<not> screenDestroyed u" "overlays u = []" "pending u = []"
      "editedArgs u = []"
    by blast
  have sel: "selectedFile u = Some (numbered 30)"
    by (simp add: selectedFile_def itemAt_def uf)
  from delete_lookup_window [OF uf(5,4,6) sel uf(3,7), of exampleEnv]
  obtain t ident where t: "run exampleEnv [KeyAwait KeyD, Key KeyMinus, Complete 0] u = Inr t"
    "overlays t = [ConfirmDelete ident (numbered 30) 1, EditOptions []]"
    "modalActive t" "\<not> screenDestroyed t"
    by (auto simp: uf)
  have "run exampleEnv (Key KeyRight # [KeyAwait KeyD, Key KeyMinus, Complete 0]) s = Inr t"
    using u t(1) by (rule run_Cons)
  with s have "run exampleEnv ((replicate n1 MetaWorkerTurn @ replicate n2 SummaryWorkerTurn)
            @ Key KeyRight # [KeyAwait KeyD, Key KeyMinus, Complete 0]) start32 = Inr t"
    by (rule run_then)
  then have "run exampleEnv (replicate n1 MetaWorkerTurn @ replicate n2 SummaryWorkerTurn
                          @ [Key KeyRight, KeyAwait KeyD, Key KeyMinus, Complete 0]) start32 = Inr t"
    by simp
  with t(2-) show ?thesis by blast
qed

subsection \<open>A load that returns after the picker has ended\<close>

text \<open>A navigation key whose preview is not cached at the current width: the handler
  stops inside \<open>updatePreviewForIndex\<close>.\<close>

lemma navKeyAwait_miss:
  assumes "\<not> modalActive s"
    and "sel = navTarget k (selectedIndex s) (int (length (pageItems s)))"
    and "itemAt (pageItems s) sel = Some f"
    and "previewCache s (previewKey (path f) (getPreviewInnerWidth s)) = None"
  shows "navKeyAwait k s =
     Inr (s\<lparr>selectedIndex := sel,
             cacheReads := cacheReads s @ [MetaRead (path f),
                             PreviewRead (previewKey (path f) (getPreviewInnerWidth s))],
             previewContent := ustr ''Loading'' @ [8230],
             pending := pending s @ [PreviewLoad sel f (getPreviewInnerWidth s) (NavRest sel)]\<rparr>)"
proof -
  have range: "\<not> (sel < 0 \<or> sel \<ge> int (length (pageItems s)))"
    using assms(3) by (auto simp: itemAt_def split: if_splits)
  define s1 where "s1 = s\<lparr>selectedIndex := sel\<rparr>"
  have s1: "setSelectedIndex sel s = s1"
    using range by (simp add: setSelectedIndex_def s1_def)
  have w: "getPreviewInnerWidth (logRead r s1) = getPreviewInnerWidth s" for r
    by (simp add: getPreviewInnerWidth_def logRead_def s1_def Let_def)
  have item: "itemAt (pageItems s1) sel = Some f"
    using assms(3) by (simp add: s1_def)
  have miss: "previewCache (logRead r' (logRead r s1)) (previewKey (path f) (getPreviewInnerWidth s)) = None"
    for r r'
    using assms(4) by (simp add: logRead_def s1_def)
  have "updatePreviewAwait sel (NavRest sel) s1 =
     Inr (suspend (PreviewLoad sel f (getPreviewInnerWidth s) (NavRest sel))
            ((logRead (PreviewRead (previewKey (path f) (getPreviewInnerWidth s)))
                (logRead (MetaRead (path f)) s1))\<lparr>previewContent := ustr ''Loading'' @ [8230]\<rparr>))"
    by (simp add: updatePreviewAwait_def item Let_def w miss)
  then show ?thesis
    using assms(1)
    by (simp add: navKeyAwait_def assms(2) [symmetric] s1 Let_def)
       (simp add: suspend_def logRead_def s1_def)
qed

text \<open>The parse of a waiting preview load returns on a destroyed picker whose page still
  holds the file: the summary and preview caches are written, the list row is redrawn from
  the caches, and the navigation handler goes on to its loads.\<close>

lemma preview_returns_after_destroy:
  assumes "pending s = [PreviewLoad 0 f w (NavRest 0)]" "pageItems s = [f]" "destroyed s"
    and "metaCache s (path f) = None" "parseSessionFile E (path f) = Inr p"
  shows "\<exists>t. step E (Complete 0) s = Inr t
      \<and> cacheReads t = cacheReads s @ [MetaRead (path f), SummaryRead (path f),
                                         MetaRead (path f), SummaryRead (path f)]
      \<and> msgSummaryCache t (path f) = Some (summaryOf p)
      \<and> previewCache t (previewKey (path f) w) =
          Some (buildDialogPreviewBlocks (stringWidth E) (dayjsFormat E) (chalkHex E) (messages p)
                  (hide E) (Some w))
      \<and> pending t = [MetaLoad 0 f False]
      \<and> resolved t = resolved s \<and> screenDestroyed t = screenDestroyed s"
  using assms
  by (simp add: updatePreviewResume_def updateItemBox_eq itemReads_def itemAt_def loadMetaAwait_def
      loadSummaryAwait_def suspend_def logRead_def bindE_def Let_def)

text \<open>
  C9 at a concrete input.  The picker is opened on the single file A in a terminal 40
  columns wide.  \<open>f\<close> changes the preview width to 38, and \<open>down\<close> starts the preview
  load for A at that width, which waits for the parse.  \<open>d\<close> and \<open>y\<close>, typed before the
  parse returns, delete A: the picker is destroyed and resolves \<open>null\<close>, and A has no
  entry in any of the three caches.  Then the parse returns.  The code after the \<open>await\<close>
  in \<open>updatePreviewForIndex\<close> writes the summary and redraws the list row before it
  tests \<open>destroyed\<close>, and the navigation handler goes on with its loads: the metadata
  cache and the summary cache are read twice each for the deleted path, and the summary
  and the preview of the deleted file are in the caches again.
\<close>

theorem waiting_preview_reads_after_termination:
  "\<exists>s t. run exampleEnv [Key KeyF, KeyAwait KeyDown, Key KeyD, Key KeyY] start40 = Inr s
      \<and> screenDestroyed s \<and> destroyed s \<and> resolved s = Some None \<and> visibleFiles s = []
      \<and> metaCache s ''A'' = None \<and> msgSummaryCache s ''A'' = None
      \<and> previewCache s (previewKey ''A'' 38) = None
      \<and> pending s = [PreviewLoad 0 fileA 38 (NavRest 0)]
      \<and> step exampleEnv (Complete 0) s = Inr t
      \<and> cacheReads t = cacheReads s @ [MetaRead ''A'', SummaryRead ''A'', MetaRead ''A'', SummaryRead ''A'']
      \<and> msgSummaryCache t ''A'' \<noteq> None \<and> previewCache t (previewKey ''A'' 38) \<noteq> None
      \<and> resolved t = Some None"
proof -
  have ne: "[fileA] \<noteq> []" by simp
  have s0: "\<not> screenDestroyed start40" "overlays start40 = []" "pending start40 = []"
    "resolved start40 = None" "visibleFiles start40 = [fileA]"
    by (simp_all add: start40_def pickSession_start [OF ne])
  define s1 where "s1 = toggleFullView exampleEnv start40"
  note eq1 = toggleFullView_eq [OF start40_facts(1), of exampleEnv, folded s1_def]
  have f1: "\<not> modalActive s1" "\<not> screenDestroyed s1" "overlays s1 = []" "pending s1 = []"
    "resolved s1 = None" "visibleFiles s1 = [fileA]" "pageItems s1 = [fileA]" "selectedIndex s1 = 0"
    "\<not> destroyed s1"
    by (simp_all add: eq1 s0 start40_facts)
  have w1: "getPreviewInnerWidth s1 = 38"
    unfolding s1_def by (rule start40_width(2))
  have c1: "previewCache s1 (previewKey (path fileA) 38) = None"
    using start40_preview(2) by (simp add: eq1)
  have step1: "step exampleEnv (Key KeyF) start40 = Inr s1"
    by (simp add: dispatch_browsing s0 s1_def)
  define s2 where "s2 = s1\<lparr>selectedIndex := 0,
             cacheReads := cacheReads s1 @ [MetaRead (path fileA),
                             PreviewRead (previewKey (path fileA) 38)],
             previewContent := ustr ''Loading'' @ [8230],
             pending := pending s1 @ [PreviewLoad 0 fileA 38 (NavRest 0)]\<rparr>"
  have "navKeyAwait KeyDown s1 = Inr s2"
    unfolding s2_def w1 [symmetric]
    by (rule navKeyAwait_miss) (simp_all add: f1 itemAt_def w1 c1)
  then have step2: "step exampleEnv (KeyAwait KeyDown) s1 = Inr s2"
    by (simp add: dispatch_browsing f1)
  have f2: "\<not> modalActive s2" "\<not> screenDestroyed s2" "overlays s2 = []"
    "pending s2 = [PreviewLoad 0 fileA 38 (NavRest 0)]"
    "resolved s2 = None" "visibleFiles s2 = [fileA]" "pageItems s2 = [fileA]" "selectedIndex s2 = 0"
    by (simp_all add: s2_def f1)
  have sel: "selectedFile s2 = Some fileA"
    by (simp add: selectedFile_def itemAt_def f2)
  define s3 where "s3 = deleteSelectedFile exampleEnv s2"
  have step3: "step exampleEnv (Key KeyD) s2 = Inr s3"
    by (simp add: dispatch_browsing f2 s3_def)
  obtain ident where ov: "overlays s3 = ConfirmDelete ident fileA 1 # []"
    using deleteSelectedFile_opens(1) [OF sel, of exampleEnv] by (auto simp: s3_def f2)
  have f3: "modalActive s3" "\<not> screenDestroyed s3" "resolved s3 = None" "visibleFiles s3 = [fileA]"
    "pageItems s3 = [fileA]" "pending s3 = [PreviewLoad 0 fileA 38 (NavRest 0)]"
    by (simp_all add: s3_def deleteSelectedFile_opens [OF sel] deleteSelectedFile_frame [OF sel] f2)
  define s4 where "s4 = overlayKey exampleEnv KeyY s3"
  have step4: "step exampleEnv (Key KeyY) s3 = Inr s4"
    using dispatch_confirm [OF f3(2,1) _ ov, of KeyY exampleEnv] by (simp add: s4_def)
  have last: "filter (\<lambda>it. path it \<noteq> path fileA)
                (visibleFiles (s3\<lparr>overlays := [], modalActive := False\<rparr>)) = []"
    by (simp add: f3)
  note eq4 = deleteConfirmed_last [OF exampleEnv_fields(5) last]
  have s4: "s4 = resolve None
     (s3\<lparr>overlays := [], modalActive := False,
          metaCache := (metaCache s3)(path fileA := None),
          msgSummaryCache := (msgSummaryCache s3)(path fileA := None),
          previewCache := (\<lambda>key. if prefix (path fileA @ ''::'') key then None
                                 else previewCache s3 key),
          visibleFiles := [], destroyed := True, screenDestroyed := True\<rparr>)"
    unfolding s4_def overlayKey_confirm(1) [OF ov] eq4 by (simp cong: if_cong)
  have f4: "screenDestroyed s4" "destroyed s4" "resolved s4 = Some None" "visibleFiles s4 = []"
    "metaCache s4 (path fileA) = None" "msgSummaryCache s4 (path fileA) = None"
    "previewCache s4 (previewKey (path fileA) 38) = None"
    "pending s4 = [PreviewLoad 0 fileA 38 (NavRest 0)]" "pageItems s4 = [fileA]"
    by (simp_all add: s4 resolve_def f3 previewKey_prefix)
  from preview_returns_after_destroy [OF f4(8,9,2,5) start40_facts(9)]
  obtain t where t: "step exampleEnv (Complete 0) s4 = Inr t"
    "cacheReads t = cacheReads s4 @ [MetaRead (path fileA), SummaryRead (path fileA),
                                      MetaRead (path fileA), SummaryRead (path fileA)]"
    "msgSummaryCache t (path fileA) \<noteq> None"
    "previewCache t (previewKey (path fileA) 38) \<noteq> None"
    "resolved t = resolved s4"
    by auto
  have run: "run exampleEnv [Key KeyF, KeyAwait KeyDown, Key KeyD, Key KeyY] start40 = Inr s4"
    by (intro run_Cons [OF step1] run_Cons [OF step2] run_Cons [OF step3] run_Cons [OF step4]) simp
  have pA: "path fileA = ''A''" by (simp add: fileA_def)
  show ?thesis
    by (rule exI [of _ s4], rule exI [of _ t], intro conjI, rule run)
       (use f4 t in \<open>simp_all add: pA del: step.simps\<close>)
qed

subsection \<open>The two readings of a handler\<close>

text \<open>A load run to its end is the load up to its \<open>await\<close> followed at once by the code
  after it.\<close>

lemma loadMeta_split:
  assumes "itemAt (pageItems s) i = Some f" "metaCache s (path f) = None"
  shows "loadMetaAwait i False s = Inr (suspend (MetaLoad i f False) (logRead (MetaRead (path f)) s))"
    and "loadMeta E i s = Inr (loadMetaResume E i f (logRead (MetaRead (path f)) s))"
  using assms
  by (simp_all add: loadMetaAwait_def loadMeta_def loadMetaResume_def logRead_def Let_def
      split: option.splits)

lemma loadSummary_split:
  assumes "itemAt (pageItems s) i = Some f" "msgSummaryCache s (path f) = None"
  shows "loadSummaryAwait i False s = suspend (SummaryLoad i f False) (logRead (SummaryRead (path f)) s)"
    and "loadSummary E i s = loadSummaryResume E i f (logRead (SummaryRead (path f)) s)"
  using assms
  by (simp_all add: loadSummaryAwait_def loadSummary_def loadSummaryResume_def logRead_def Let_def
      split: sum.splits)

lemma updatePreview_split:
  assumes "itemAt (pageItems s) idx = Some f"
    and "previewCache s (previewKey (path f) (getPreviewInnerWidth s)) = None"
    and "t = (logRead (PreviewRead (previewKey (path f) (getPreviewInnerWidth s)))
               (logRead (MetaRead (path f)) s))\<lparr>previewContent := ustr ''Loading'' @ [8230]\<rparr>"
  shows "updatePreviewAwait idx r s = Inr (suspend (PreviewLoad idx f (getPreviewInnerWidth s) r) t)"
    and "updatePreviewForIndex E idx s = updatePreviewResume E idx f (getPreviewInnerWidth s) t"
  using assms
  by (simp_all add: updatePreviewAwait_def updatePreviewForIndex_def updatePreviewResume_def
      getPreviewInnerWidth_logRead Let_def split: sum.splits)
     (simp_all add: logRead_def getPreviewInnerWidth_frame Let_def)

text \<open>A load that finds its entry cached returns at once in both readings.\<close>

lemma load_cached:
  assumes "itemAt (pageItems s) i = Some f"
  shows "metaCache s (path f) \<noteq> None \<Longrightarrow> loadMetaAwait i w s = loadMeta E i s"
    and "msgSummaryCache s (path f) \<noteq> None \<Longrightarrow> loadSummaryAwait i w s = loadSummary E i s"
  using assms
  by (simp_all add: loadMetaAwait_def loadMeta_def loadSummaryAwait_def loadSummary_def logRead_def
      Let_def)

text \<open>While the text box of the edit-options overlay reads input, no screen handler sees
  a key.\<close>

lemma dispatch_textbox:
  assumes "\<not> screenDestroyed s" "overlays s = EditOptions v # others"
  shows "step E (Key k) s = Inr (textboxKey E k s)"
    and "pageItems (textboxKey E k s) = pageItems s"
    and "selectedIndex (textboxKey E k s) = selectedIndex s"
    and "currentPage (textboxKey E k s) = currentPage s"
    and "visibleFiles (textboxKey E k s) = visibleFiles s"
    and "fullView (textboxKey E k s) = fullView s"
    and "resolved (textboxKey E k s) = resolved s"
    and "screenDestroyed (textboxKey E k s) = screenDestroyed s"
    and "modalActive (textboxKey E k s) = modalActive s"
    and "overlays (textboxKey E k s) = others \<or> (\<exists>v'. overlays (textboxKey E k s) = EditOptions v' # others)"
  using assms
  by (simp_all add: dispatch_def grabbing_def textboxKey_def submitOptions_def overlayKey_def
      split: option.splits)

end
